theory Spec2Isabelle
  imports Complex_Main
begin

section \<open>Python values used by the program\<close>

text \<open>
  The program is dynamically typed, and three of its files are read with
  \<^verbatim>\<open>json.load\<close>, which yields whatever the file holds. A loaded value is \<^verbatim>\<open>None\<close>, a
  number, a string, a list or a dictionary. \<^verbatim>\<open>True\<close> and \<^verbatim>\<open>False\<close> are the numbers 1 and
  0, as Python's \<^verbatim>\<open>bool\<close> is in every comparison and dictionary lookup the program
  makes, so that equality of these values is Python's \<^verbatim>\<open>==\<close>. The literals
  \<^verbatim>\<open>NaN\<close> and \<^verbatim>\<open>Infinity\<close>, which \<^verbatim>\<open>json.load\<close> also accepts, have no
  counterpart here.
\<close>

datatype json =
    JNull
  | JNum real
  | JStr string
  | JArr "json list"
  | JObj "string \<Rightarrow> json option"

text \<open>An f-string renders \<^verbatim>\<open>None\<close> as the four characters \<^verbatim>\<open>None\<close>.\<close>

definition py_str :: "string option \<Rightarrow> string" where
  "py_str v = (case v of None \<Rightarrow> ''None'' | Some s \<Rightarrow> s)"

text \<open>\<^verbatim>\<open>int(x)\<close> on a float truncates toward zero.\<close>

definition py_int :: "real \<Rightarrow> int" where
  "py_int x = (if 0 \<le> x then \<lfloor>x\<rfloor> else - \<lfloor>- x\<rfloor>)"

text \<open>\<^verbatim>\<open>needle in haystack\<close> on two strings: the substring test.\<close>

fun starts_with :: "string \<Rightarrow> string \<Rightarrow> bool" where
  "starts_with s [] = True"
| "starts_with [] (c # cs) = False"
| "starts_with (x # xs) (c # cs) = (x = c \<and> starts_with xs cs)"

fun contains :: "string \<Rightarrow> string \<Rightarrow> bool" where
  "contains [] needle = (needle = [])"
| "contains (x # xs) needle = (starts_with (x # xs) needle \<or> contains xs needle)"

text \<open>
  The exceptions that can end a pass of the loop or a constructor, as values.
  \<open>ReadError\<close> stands for what reading a file raises other than
  \<^verbatim>\<open>FileNotFoundError\<close> and \<^verbatim>\<open>JSONDecodeError\<close>: \<^verbatim>\<open>UnicodeDecodeError\<close> for bytes
  that are not text, \<^verbatim>\<open>PermissionError\<close> and the like.
\<close>

datatype error =
    ObserverError
  | ClassifierError
  | ReadError
  | KeyError
  | TypeError
  | AttributeError

subsection \<open>Naive datetimes (the standard library's \<^verbatim>\<open>datetime\<close>)\<close>

text \<open>
  A \<^verbatim>\<open>datetime\<close> object holds calendar fields; its constructor admits only
  \<open>1 \<le> month \<le> 12\<close>, years of up to four digits and in-range clock fields. The ordinal
  of a date follows \<^verbatim>\<open>_ymd2ord\<close>, the difference of two datetimes is a
  \<^verbatim>\<open>timedelta\<close>, an exact count of microseconds.
\<close>

record datetime =
  year :: nat
  month :: nat
  day :: nat
  hour :: nat
  minute :: nat
  second :: nat
  microsecond :: nat

definition digit_char :: "nat \<Rightarrow> char" where
  "digit_char n = ''0123456789'' ! (n mod 10)"

fun digits :: "nat \<Rightarrow> string" where
  "digits n = (if n < 10 then [digit_char n] else digits (n div 10) @ [digit_char n])"

declare digits.simps [simp del]

text \<open>\<^verbatim>\<open>"%0wd" % n\<close> for a non-negative \<open>n\<close>.\<close>

definition zero_pad :: "nat \<Rightarrow> nat \<Rightarrow> string" where
  "zero_pad w n = (let s = digits n in replicate (w - length s) (CHR ''0'') @ s)"

definition isoformat :: "datetime \<Rightarrow> string" where
  "isoformat d =
     zero_pad 4 (year d) @ ''-'' @ zero_pad 2 (month d) @ ''-'' @ zero_pad 2 (day d) @ ''T'' @
     zero_pad 2 (hour d) @ '':'' @ zero_pad 2 (minute d) @ '':'' @ zero_pad 2 (second d) @
     (if microsecond d = 0 then [] else ''.'' @ zero_pad 6 (microsecond d))"

definition is_leap :: "nat \<Rightarrow> bool" where
  "is_leap y = (y mod 4 = 0 \<and> (y mod 100 \<noteq> 0 \<or> y mod 400 = 0))"

definition days_before_year :: "nat \<Rightarrow> int" where
  "days_before_year y =
     (let y1 = int y - 1 in y1 * 365 + y1 div 4 - y1 div 100 + y1 div 400)"

definition days_before_month :: "nat \<Rightarrow> nat \<Rightarrow> int" where
  "days_before_month y m =
     (if m \<le> 12 then int ([0, 0, 31, 59, 90, 120, 151, 181, 212, 243, 273, 304, 334] ! m) else 0)
       + (if 2 < m \<and> is_leap y then 1 else 0)"

definition toordinal :: "datetime \<Rightarrow> int" where
  "toordinal d = days_before_year (year d) + days_before_month (year d) (month d) + int (day d)"

definition microseconds_of :: "datetime \<Rightarrow> int" where
  "microseconds_of d =
     ((toordinal d * 86400 + int (hour d) * 3600 + int (minute d) * 60 + int (second d))
        * 1000000) + int (microsecond d)"

text \<open>
  \<^verbatim>\<open>(e - s).total_seconds()\<close> divides the microseconds of the difference by \<open>10\<^sup>6\<close> and
  returns a float: the double nearest to the quotient. The rounding of a real to the
  nearest double is the parameter \<open>rnd\<close>; nothing is assumed of it.
\<close>

definition total_seconds_between :: "(real \<Rightarrow> real) \<Rightarrow> datetime \<Rightarrow> datetime \<Rightarrow> real" where
  "total_seconds_between rnd e s =
     rnd (real_of_int (microseconds_of e - microseconds_of s) / 1000000)"

section \<open>Observable actions\<close>

text \<open>
  What a call does beyond its return value: the console lines it prints (without their
  timestamps) and the calls it makes to its collaborators, in program order. The request
  for a nudge text is recorded by the category and the seconds its prompt is built from.
\<close>

datatype event =
    PrintCategorizing string
  | QueryCategory string
  | WriteCache
  | PrintSessionEnded string json
  | WriteLog
  | PrintSessionStarted string json
  | EvaluateRules
  | PrintRulesModified
  | PrintRulesNotFound
  | PrintRulesInvalid
  | PrintTriggered json json int
  | PrintGenerating json int
  | QueryNudge json int
  | Notify string string
  | PrintNotifyFailed
  | PrintExiting
  | PrintError error

section \<open>\<^verbatim>\<open>data_manager.py\<close>\<close>

text \<open>
  The log file at \<^verbatim>\<open>self.filepath\<close>: absent; present but not parseable as JSON
  (\<^verbatim>\<open>JSONDecodeError\<close>); present but unreadable; or holding a JSON value, which
  \<^verbatim>\<open>_load_data\<close> returns as it is, a list or not. Writing a file is taken to succeed.
\<close>

datatype log_file = LogMissing | LogNotJson | LogUnreadable | LogJson json

record DataManager =
  data :: json
  log_store :: log_file

definition load_data :: "log_file \<Rightarrow> error + json" where
  "load_data f =
     (case f of
        LogMissing \<Rightarrow> Inr (JArr [])
      | LogNotJson \<Rightarrow> Inr (JArr [])
      | LogUnreadable \<Rightarrow> Inl ReadError
      | LogJson j \<Rightarrow> Inr j)"

definition DataManager_init :: "log_file \<Rightarrow> error + DataManager" where
  "DataManager_init f =
     (case load_data f of
        Inl err \<Rightarrow> Inl err
      | Inr j \<Rightarrow> Inr \<lparr> data = j, log_store = f \<rparr>)"

definition save_data :: "DataManager \<Rightarrow> DataManager" where
  "save_data dm = dm \<lparr> log_store := LogJson (data dm) \<rparr>"

text \<open>The dictionary \<^verbatim>\<open>entry\<close> that \<^verbatim>\<open>save_session\<close> builds.\<close>

definition session_entry ::
  "(real \<Rightarrow> real) \<Rightarrow> string \<Rightarrow> json \<Rightarrow> datetime \<Rightarrow> datetime \<Rightarrow> json" where
  "session_entry rnd name cat start end =
     JObj [''start_time'' \<mapsto> JStr (isoformat start),
           ''end_time'' \<mapsto> JStr (isoformat end),
           ''app_name'' \<mapsto> JStr name,
           ''category'' \<mapsto> cat,
           ''duration_seconds'' \<mapsto> JNum (total_seconds_between rnd end start)]"

text \<open>
  \<^verbatim>\<open>self.data.append(entry)\<close> is a method of lists only: on any other loaded value it
  raises \<^verbatim>\<open>AttributeError\<close>, before anything is changed or written.
\<close>

definition save_session ::
  "(real \<Rightarrow> real) \<Rightarrow> DataManager \<Rightarrow> string \<Rightarrow> json \<Rightarrow> datetime \<Rightarrow> datetime
     \<Rightarrow> error + DataManager" where
  "save_session rnd dm name cat start end =
     (case data dm of
        JArr items \<Rightarrow>
          Inr (save_data (dm \<lparr> data := JArr (items @ [session_entry rnd name cat start end]) \<rparr>))
      | _ \<Rightarrow> Inl AttributeError)"

section \<open>\<^verbatim>\<open>rules_engine.py\<close>\<close>

text \<open>
  A rule is the triple the comprehension of \<^verbatim>\<open>load_rules\<close> builds; its components are
  the values found under the three keys, of whatever type.
\<close>

type_synonym rule = "json \<times> json \<times> json"

definition DEFAULT_RULES :: "rule list" where
  "DEFAULT_RULES =
     [(JStr ''Work'', JNum 30, JStr ''short_work_session''),
      (JStr ''Gaming'', JNum 20, JStr ''short_gaming_session''),
      (JStr ''Browsing'', JNum 15, JStr ''short_browsing_session''),
      (JStr ''Media'', JNum 10, JStr ''short_media_session''),
      (JStr ''Communication'', JNum 10, JStr ''short_communication_session'')]"

text \<open>
  The configuration file as \<^verbatim>\<open>load_rules\<close> meets it. \<open>None\<close>: no such file
  (\<^verbatim>\<open>FileNotFoundError\<close>). Otherwise its modification time and its content: unreadable;
  not parseable as JSON (\<^verbatim>\<open>JSONDecodeError\<close>); or a JSON value.
\<close>

datatype config_content = Unreadable | NotJson | Json json

type_synonym config_file = "(real \<times> config_content) option"

text \<open>
  \<^verbatim>\<open>(rule["category"], rule["duration_seconds"], rule["action_name"])\<close>: a missing key
  raises \<^verbatim>\<open>KeyError\<close>, a rule that is not a dictionary \<^verbatim>\<open>TypeError\<close>.
\<close>

definition parse_rule :: "json \<Rightarrow> error + rule" where
  "parse_rule j =
     (case j of
        JObj m \<Rightarrow>
          (case m ''category'' of
             None \<Rightarrow> Inl KeyError
           | Some c \<Rightarrow>
               (case m ''duration_seconds'' of
                  None \<Rightarrow> Inl KeyError
                | Some d \<Rightarrow>
                    (case m ''action_name'' of
                       None \<Rightarrow> Inl KeyError
                     | Some a \<Rightarrow> Inr (c, d, a))))
      | _ \<Rightarrow> Inl TypeError)"

fun parse_items :: "json list \<Rightarrow> error + rule list" where
  "parse_items [] = Inr []"
| "parse_items (j # js) =
     (case parse_rule j of
        Inl err \<Rightarrow> Inl err
      | Inr r \<Rightarrow> (case parse_items js of Inl err \<Rightarrow> Inl err | Inr rs \<Rightarrow> Inr (r # rs)))"

text \<open>
  The comprehension over \<^verbatim>\<open>config["rules"]\<close>. Subscripting anything but a dictionary
  with a string raises \<^verbatim>\<open>TypeError\<close>. Iterating a list yields its items; iterating a
  dictionary or a string yields strings, on which the first subscript raises
  \<^verbatim>\<open>TypeError\<close>, unless there is nothing to iterate; \<^verbatim>\<open>None\<close> and numbers are not
  iterable.
\<close>

definition parse_rules :: "json \<Rightarrow> error + rule list" where
  "parse_rules config =
     (case config of
        JObj m \<Rightarrow>
          (case m ''rules'' of
             None \<Rightarrow> Inl KeyError
           | Some (JArr items) \<Rightarrow> parse_items items
           | Some (JObj r) \<Rightarrow> (if r = Map.empty then Inr [] else Inl TypeError)
           | Some (JStr s) \<Rightarrow> (if s = [] then Inr [] else Inl TypeError)
           | Some JNull \<Rightarrow> Inl TypeError
           | Some (JNum x) \<Rightarrow> Inl TypeError)
      | _ \<Rightarrow> Inl TypeError)"

record RulesEngine =
  rules :: "rule list"
  last_nudged_time :: "json \<rightharpoonup> real"
  last_modified_time :: real

definition load_rules ::
  "config_file \<Rightarrow> RulesEngine \<Rightarrow> (error + rule list) \<times> RulesEngine \<times> event list" where
  "load_rules f eng =
     (case f of
        None \<Rightarrow> (Inr DEFAULT_RULES, eng, [PrintRulesNotFound])
      | Some (current_modified_time, content) \<Rightarrow>
          (let modified = (current_modified_time > last_modified_time eng);
               eng' = (if modified then eng \<lparr> last_modified_time := current_modified_time \<rparr>
                       else eng);
               ev = (if modified then [PrintRulesModified] else [])
           in case content of
                NotJson \<Rightarrow> (Inr DEFAULT_RULES, eng', ev @ [PrintRulesInvalid])
              | Unreadable \<Rightarrow> (Inl ReadError, eng', ev)
              | Json j \<Rightarrow> (parse_rules j, eng', ev)))"

text \<open>
  \<^verbatim>\<open>RulesEngine.__init__\<close>; an error escaping \<^verbatim>\<open>load_rules\<close> escapes the
  constructor.
\<close>

definition RulesEngine_init :: "config_file \<Rightarrow> error + RulesEngine" where
  "RulesEngine_init f =
     (let eng = \<lparr> rules = [], last_nudged_time = Map.empty,
                   last_modified_time = (case f of None \<Rightarrow> 0 | Some (m, c) \<Rightarrow> m) \<rparr>
      in case load_rules f eng of
           (Inl err, eng', ev) \<Rightarrow> Inl err
         | (Inr rs, eng', ev) \<Rightarrow> Inr (eng' \<lparr> rules := rs \<rparr>))"

text \<open>
  The \<^verbatim>\<open>for\<close> loop of \<^verbatim>\<open>evaluate_current_session\<close>. \<open>now\<close> is the value of
  \<^verbatim>\<open>time.time()\<close> during the call: the loop reads the clock at the debounce test and
  again when it records the firing, with nothing but the assignment in between.
  \<^verbatim>\<open>and\<close> does not look at the threshold of a rule of another category. Comparing the
  duration with a threshold that is not a number raises \<^verbatim>\<open>TypeError\<close>, and so does the
  dictionary lookup of an action that is a list or a dictionary (unhashable).
\<close>

fun scan_rules ::
  "rule list \<Rightarrow> (json \<rightharpoonup> real) \<Rightarrow> real \<Rightarrow> json \<Rightarrow> real
     \<Rightarrow> error + ((json \<times> json \<times> int) option \<times> (json \<rightharpoonup> real))" where
  "scan_rules [] lnt now cat duration = Inr (None, lnt)"
| "scan_rules ((rule_category, rule_duration, action) # rs) lnt now cat duration =
     (if rule_category = cat then
        (case rule_duration of
           JNum threshold \<Rightarrow>
             (if duration \<ge> threshold then
                (case action of
                   JArr xs \<Rightarrow> Inl TypeError
                 | JObj m \<Rightarrow> Inl TypeError
                 | _ \<Rightarrow>
                     (case lnt action of
                        None \<Rightarrow> Inr (Some (action, cat, py_int duration), lnt(action \<mapsto> now))
                      | Some t \<Rightarrow>
                          (if now - t > threshold
                           then Inr (Some (action, cat, py_int duration), lnt(action \<mapsto> now))
                           else scan_rules rs lnt now cat duration)))
              else scan_rules rs lnt now cat duration)
         | _ \<Rightarrow> Inl TypeError)
      else scan_rules rs lnt now cat duration)"

text \<open>
  \<^verbatim>\<open>self.rules\<close> is assigned before the loop; an error in the loop leaves the debounce
  state as it was.
\<close>

definition evaluate_current_session ::
  "config_file \<Rightarrow> real \<Rightarrow> RulesEngine \<Rightarrow> json \<Rightarrow> real
     \<Rightarrow> (error + (json \<times> json \<times> int) option) \<times> RulesEngine \<times> event list" where
  "evaluate_current_session f now eng cat duration =
     (case load_rules f eng of
        (Inl err, eng', ev) \<Rightarrow> (Inl err, eng', ev)
      | (Inr rs, eng', ev) \<Rightarrow>
          (case scan_rules rs (last_nudged_time eng') now cat duration of
             Inl err \<Rightarrow> (Inl err, eng' \<lparr> rules := rs \<rparr>, ev)
           | Inr (r, lnt) \<Rightarrow> (Inr r, eng' \<lparr> rules := rs, last_nudged_time := lnt \<rparr>, ev)))"

definition reset_rules :: "RulesEngine \<Rightarrow> RulesEngine" where
  "reset_rules eng = eng \<lparr> last_nudged_time := Map.empty \<rparr>"

section \<open>\<^verbatim>\<open>ai.py\<close>\<close>

text \<open>
  What the monitor reports: an application name, or for Chrome the dictionary built by
  \<^verbatim>\<open>get_chrome_activity\<close>, whose URL is \<^verbatim>\<open>None\<close> when the script's output has
  no separator.
\<close>

record chrome_activity =
  window_name :: string
  active_tab_title :: string
  active_tab_url :: "string option"

datatype app_data = AppStr string | AppDict chrome_activity

text \<open>
  The cache file: absent, not parseable as JSON, unreadable, or holding a JSON value,
  which \<^verbatim>\<open>_load_cache\<close> returns as it is, a dictionary or not. Writing the file is
  taken to succeed.
\<close>

datatype cache_file = CacheMissing | CacheNotJson | CacheUnreadable | CacheJson json

record AIAgent =
  category_cache :: json
  cache_store :: cache_file

definition load_cache :: "cache_file \<Rightarrow> error + json" where
  "load_cache f =
     (case f of
        CacheMissing \<Rightarrow> Inr (JObj Map.empty)
      | CacheNotJson \<Rightarrow> Inr (JObj Map.empty)
      | CacheUnreadable \<Rightarrow> Inl ReadError
      | CacheJson j \<Rightarrow> Inr j)"

definition AIAgent_init :: "cache_file \<Rightarrow> error + AIAgent" where
  "AIAgent_init f =
     (case load_cache f of
        Inl err \<Rightarrow> Inl err
      | Inr j \<Rightarrow> Inr \<lparr> category_cache = j, cache_store = f \<rparr>)"

definition save_cache :: "AIAgent \<Rightarrow> AIAgent" where
  "save_cache a = a \<lparr> cache_store := CacheJson (category_cache a) \<rparr>"

definition valid_categories :: "string set" where
  "valid_categories =
     {''Work'', ''Gaming'', ''Browsing'', ''Communication'', ''Media'', ''Other''}"

definition cache_key :: "app_data \<Rightarrow> string" where
  "cache_key d =
     (case d of
        AppStr s \<Rightarrow> s
      | AppDict c \<Rightarrow> ''chrome|'' @ active_tab_title c @ ''|'' @ py_str (active_tab_url c))"

definition quoted :: "string \<Rightarrow> string" where
  "quoted s = [CHR 0x27] @ s @ [CHR 0x27]"

definition categorize_prompt :: "app_data \<Rightarrow> string" where
  "categorize_prompt d =
     (case d of
        AppDict c \<Rightarrow>
          ''Categorize this web page with title '' @ quoted (active_tab_title c) @
          '' and URL '' @ quoted (py_str (active_tab_url c)) @
          '' into one of the following '' @
          ''categories: Work, Gaming, Browsing, Communication, Media, or Other. '' @
          ''Respond with only the category name.''
      | AppStr s \<Rightarrow>
          ''Categorize the application '' @ quoted s @ '' into one of the following '' @
          ''categories: Work, Gaming, Browsing, Communication, Media, or Other. '' @
          ''Respond with only the category name.'')"

text \<open>
  The three operations of \<^verbatim>\<open>categorize_app\<close> on the cache, by the type of the loaded
  value. \<^verbatim>\<open>key in cache\<close> looks among the keys of a dictionary, among the items of a
  list, and for a substring in a string; \<^verbatim>\<open>None\<close> and numbers are not iterable.
  \<^verbatim>\<open>cache[key]\<close> and \<^verbatim>\<open>cache[key] = value\<close> with a string key work on a dictionary
  only.
\<close>

definition cache_contains :: "json \<Rightarrow> string \<Rightarrow> error + bool" where
  "cache_contains cache k =
     (case cache of
        JObj m \<Rightarrow> Inr (m k \<noteq> None)
      | JArr xs \<Rightarrow> Inr (JStr k \<in> set xs)
      | JStr s \<Rightarrow> Inr (contains s k)
      | _ \<Rightarrow> Inl TypeError)"

definition cache_get :: "json \<Rightarrow> string \<Rightarrow> error + json" where
  "cache_get cache k =
     (case cache of
        JObj m \<Rightarrow> (case m k of None \<Rightarrow> Inl KeyError | Some v \<Rightarrow> Inr v)
      | _ \<Rightarrow> Inl TypeError)"

definition cache_set :: "json \<Rightarrow> string \<Rightarrow> json \<Rightarrow> error + json" where
  "cache_set cache k v =
     (case cache of
        JObj m \<Rightarrow> Inr (JObj (m(k \<mapsto> v)))
      | _ \<Rightarrow> Inl TypeError)"

text \<open>
  \<open>reply\<close> is what \<^verbatim>\<open>_query_llm\<close> does if it is called: it raises, or it returns a
  response whose \<^verbatim>\<open>category\<close> is some string. A \<^verbatim>\<open>TypeError\<close> of a cache operation
  is outside the \<^verbatim>\<open>try\<close> and leaves \<^verbatim>\<open>categorize_app\<close>.
\<close>

definition categorize_app ::
  "(error + string) \<Rightarrow> AIAgent \<Rightarrow> app_data \<Rightarrow> (error + json) \<times> AIAgent \<times> event list" where
  "categorize_app reply a d =
     (let k = cache_key d in
      case cache_contains (category_cache a) k of
        Inl err \<Rightarrow> (Inl err, a, [])
      | Inr True \<Rightarrow>
          (case cache_get (category_cache a) k of
             Inl err \<Rightarrow> (Inl err, a, [])
           | Inr v \<Rightarrow> (Inr v, a, []))
      | Inr False \<Rightarrow>
          (let c = (case reply of Inr r \<Rightarrow> r | Inl err \<Rightarrow> ''Other'');
               c' = (if c \<in> valid_categories then c else ''Other'');
               ev = [PrintCategorizing k, QueryCategory (categorize_prompt d)]
           in case cache_set (category_cache a) k (JStr c') of
                Inl err \<Rightarrow> (Inl err, a, ev)
              | Inr cache' \<Rightarrow>
                  (Inr (JStr c'), save_cache (a \<lparr> category_cache := cache' \<rparr>),
                   ev @ [WriteCache])))"

definition generate_nudge :: "(error + string) \<Rightarrow> json \<Rightarrow> int \<Rightarrow> string \<times> event list" where
  "generate_nudge reply cat duration =
     ((case reply of Inr m \<Rightarrow> m | Inl err \<Rightarrow> ''Consider taking a break from your screen.''),
      [PrintGenerating cat duration, QueryNudge cat duration])"

section \<open>\<^verbatim>\<open>notifier.py\<close>\<close>

text \<open>\<open>ok\<close>: the platform call does not raise; when it does, the failure is printed.\<close>

definition send_notification :: "bool \<Rightarrow> string \<Rightarrow> string \<Rightarrow> event list" where
  "send_notification ok title message =
     Notify title message # (if ok then [] else [PrintNotifyFailed])"

section \<open>\<^verbatim>\<open>run.py\<close>\<close>

record BilgeApp =
  data_manager :: DataManager
  rules_engine :: RulesEngine
  ai_agent :: AIAgent
  current_session_start_time :: datetime
  current_session_category :: json
  current_session_app_name :: "string option"
  last_app_data :: "app_data option"
  nudged_for_session :: bool

text \<open>
  \<^verbatim>\<open>BilgeApp.__init__\<close>, given the three files and the clock reading; each of the three
  constructors may raise, in the order the source calls them.
\<close>

definition BilgeApp_init ::
  "log_file \<Rightarrow> config_file \<Rightarrow> cache_file \<Rightarrow> datetime \<Rightarrow> error + BilgeApp" where
  "BilgeApp_init lf cf kf now =
     (case DataManager_init lf of
        Inl err \<Rightarrow> Inl err
      | Inr dm \<Rightarrow>
          (case RulesEngine_init cf of
             Inl err \<Rightarrow> Inl err
           | Inr eng \<Rightarrow>
               (case AIAgent_init kf of
                  Inl err \<Rightarrow> Inl err
                | Inr agent \<Rightarrow>
                    Inr \<lparr> data_manager = dm,
                          rules_engine = eng,
                          ai_agent = agent,
                          current_session_start_time = now,
                          current_session_category = JNull,
                          current_session_app_name = None,
                          last_app_data = None,
                          nudged_for_session = False \<rparr>)))"

definition get_app_info :: "app_data \<Rightarrow> string \<times> string" where
  "get_app_info d =
     (case d of
        AppDict c \<Rightarrow>
          (active_tab_title c @ '' | '' @ py_str (active_tab_url c),
           window_name c @ '' | '' @ active_tab_title c)
      | AppStr s \<Rightarrow> (s, s))"

text \<open>
  Truthiness, as \<^verbatim>\<open>if current_app_data:\<close> tests it: \<^verbatim>\<open>None\<close> and the empty
  string are false; the dictionary always has its three keys and is true.
  \<^verbatim>\<open>if self.current_session_app_name:\<close> is the same test on a string or
  \<^verbatim>\<open>None\<close>, written out where it occurs.
\<close>

definition truthy_app :: "app_data option \<Rightarrow> bool" where
  "truthy_app v =
     (case v of None \<Rightarrow> False | Some (AppStr s) \<Rightarrow> s \<noteq> [] | Some (AppDict c) \<Rightarrow> True)"

text \<open>
  What one pass through the loop body meets: the monitor's answer (or its failure), the
  classifier's behaviour for each of its two prompts, the clock at each place the body
  reads it, the rounding of float division, the rule file, whether the notification call
  succeeds, and whether a keyboard interrupt arrives during the \<^verbatim>\<open>time.sleep\<close> that
  ends the pass (the one-second sleep of the body, or the five-second sleep of the error
  handler).
\<close>

record tick_env =
  observed :: "error + app_data option"
  category_reply :: "error + string"
  now_end :: datetime
  now_start :: datetime
  now_duration :: datetime
  round_double :: "real \<Rightarrow> real"
  config :: config_file
  time_now :: real
  nudge_reply :: "error + string"
  notify_ok :: bool
  sigint :: bool
  now_exit :: datetime

text \<open>The condition of line 66.\<close>

definition session_boundary :: "BilgeApp \<Rightarrow> app_data \<Rightarrow> json \<Rightarrow> bool" where
  "session_boundary s current_app_data current_category =
     (Some current_app_data \<noteq> last_app_data s \<or>
      current_category \<noteq> current_session_category s)"

text \<open>
  Lines 69 to 90: end the previous session, start the new one. When \<^verbatim>\<open>save_session\<close>
  raises, the new session is not started.
\<close>

definition switch_session ::
  "tick_env \<Rightarrow> BilgeApp \<Rightarrow> app_data \<Rightarrow> json \<Rightarrow> string
     \<Rightarrow> BilgeApp \<times> event list \<times> error option" where
  "switch_session e s current_app_data current_category app_name_for_log =
     (let (s1, ev1, err) =
            (case current_session_app_name s of
               None \<Rightarrow> (s, [], None)
             | Some name \<Rightarrow>
                 if name = [] then (s, [], None)
                 else
                   (case save_session (round_double e) (data_manager s) name
                           (current_session_category s) (current_session_start_time s)
                           (now_end e) of
                      Inl x \<Rightarrow>
                        (s, [PrintSessionEnded name (current_session_category s)], Some x)
                    | Inr dm \<Rightarrow>
                        (s \<lparr> data_manager := dm \<rparr>,
                         [PrintSessionEnded name (current_session_category s), WriteLog],
                         None)))
      in case err of
           Some x \<Rightarrow> (s1, ev1, Some x)
         | None \<Rightarrow>
             (s1 \<lparr> current_session_start_time := now_start e,
                   current_session_category := current_category,
                   current_session_app_name := Some app_name_for_log,
                   last_app_data := Some current_app_data,
                   nudged_for_session := False \<rparr>,
              ev1 @ [PrintSessionStarted app_name_for_log current_category],
              None))"

text \<open>Lines 93 to 111: rule evaluation for the current session, and the nudge.\<close>

definition evaluate_and_nudge ::
  "tick_env \<Rightarrow> BilgeApp \<Rightarrow> BilgeApp \<times> event list \<times> error option" where
  "evaluate_and_nudge e s =
     (let current_session_duration =
            total_seconds_between (round_double e) (now_duration e)
              (current_session_start_time s)
      in if nudged_for_session s then (s, [], None)
         else
           (case evaluate_current_session (config e) (time_now e) (rules_engine s)
                   (current_session_category s) current_session_duration of
              (Inl err, eng, ev) \<Rightarrow>
                (s \<lparr> rules_engine := eng \<rparr>, EvaluateRules # ev, Some err)
            | (Inr None, eng, ev) \<Rightarrow>
                (s \<lparr> rules_engine := eng \<rparr>, EvaluateRules # ev, None)
            | (Inr (Some (rule_name, cat, duration)), eng, ev) \<Rightarrow>
                (let (message, ev_g) = generate_nudge (nudge_reply e) cat duration
                 in (s \<lparr> rules_engine := eng, nudged_for_session := True \<rparr>,
                     EvaluateRules # ev @ [PrintTriggered rule_name cat duration] @ ev_g @
                       send_notification (notify_ok e) ''bilge'' message,
                     None))))"

text \<open>
  The body of the \<^verbatim>\<open>try\<close> up to its \<^verbatim>\<open>time.sleep(1)\<close>: the state it leaves, what
  it did, and the exception that ended it, if one did.
\<close>

definition tick :: "tick_env \<Rightarrow> BilgeApp \<Rightarrow> BilgeApp \<times> event list \<times> error option" where
  "tick e s =
     (case observed e of
        Inl err \<Rightarrow> (s, [], Some err)
      | Inr current_app_data \<Rightarrow>
          (case current_app_data of
             None \<Rightarrow> (s, [], None)
           | Some d \<Rightarrow>
               if \<not> truthy_app (Some d) then (s, [], None)
               else
                 (let (categorization_string, app_name_for_log) = get_app_info d
                  in case categorize_app (category_reply e) (ai_agent s)
                            (AppStr categorization_string) of
                       (Inl err, agent, ev_c) \<Rightarrow> (s \<lparr> ai_agent := agent \<rparr>, ev_c, Some err)
                     | (Inr current_category, agent, ev_c) \<Rightarrow>
                         (let s1 = s \<lparr> ai_agent := agent \<rparr>;
                              (s2, ev_b, err_b) =
                                 (if session_boundary s1 d current_category
                                  then switch_session e s1 d current_category app_name_for_log
                                  else (s1, [], None))
                          in case err_b of
                               Some err \<Rightarrow> (s2, ev_c @ ev_b, Some err)
                             | None \<Rightarrow>
                                 (let (s3, ev_r, err) = evaluate_and_nudge e s2
                                  in (s3, ev_c @ ev_b @ ev_r, err))))))"

text \<open>
  How \<^verbatim>\<open>run\<close> ends: it returns after the \<^verbatim>\<open>break\<close> and the script finishes with
  status 0, or an exception leaves \<^verbatim>\<open>run\<close> and the interpreter stops with a traceback.
\<close>

datatype exit_status = ExitSuccess | UncaughtKeyboardInterrupt | UncaughtError error

datatype run_state = Running BilgeApp | Exited exit_status BilgeApp

text \<open>
  The \<^verbatim>\<open>except KeyboardInterrupt\<close> handler, lines 115 to 124; an exception of
  \<^verbatim>\<open>save_session\<close> leaves the handler and \<^verbatim>\<open>run\<close>.
\<close>

definition on_keyboard_interrupt ::
  "tick_env \<Rightarrow> BilgeApp \<Rightarrow> exit_status \<times> BilgeApp \<times> event list" where
  "on_keyboard_interrupt e s =
     (case current_session_app_name s of
        None \<Rightarrow> (ExitSuccess, s, [PrintExiting])
      | Some name \<Rightarrow>
          if name = [] then (ExitSuccess, s, [PrintExiting])
          else
            (case save_session (round_double e) (data_manager s) name
                    (current_session_category s) (current_session_start_time s)
                    (now_exit e) of
               Inl err \<Rightarrow> (UncaughtError err, s, [PrintExiting])
             | Inr dm \<Rightarrow> (ExitSuccess, s \<lparr> data_manager := dm \<rparr>, [PrintExiting, WriteLog])))"

text \<open>
  One pass of \<^verbatim>\<open>while True\<close>. An interrupt during the body's sleep is raised inside the
  \<^verbatim>\<open>try\<close> and reaches the \<^verbatim>\<open>except KeyboardInterrupt\<close> clause. When the body
  raised an \<^verbatim>\<open>Exception\<close>, the sleep is the one inside \<^verbatim>\<open>except Exception\<close>; an
  exception raised inside a handler is not offered to the other clauses of the same
  \<^verbatim>\<open>try\<close>.
\<close>

definition iteration :: "tick_env \<Rightarrow> BilgeApp \<Rightarrow> run_state \<times> event list" where
  "iteration e s =
     (case tick e s of
        (s', ev, None) \<Rightarrow>
          (if sigint e
           then (let (st, s'', ev') = on_keyboard_interrupt e s' in (Exited st s'', ev @ ev'))
           else (Running s', ev))
      | (s', ev, Some err) \<Rightarrow>
          (if sigint e
           then (Exited UncaughtKeyboardInterrupt s', ev @ [PrintError err])
           else (Running s', ev @ [PrintError err])))"

text \<open>
  The loop over the passes the environment supplies; with the passes used up and no
  interrupt seen, the loop is still running.
\<close>

fun run :: "tick_env list \<Rightarrow> BilgeApp \<Rightarrow> run_state \<times> event list" where
  "run [] s = (Running s, [])"
| "run (e # es) s =
     (case iteration e s of
        (Running s', ev) \<Rightarrow> (let (r, ev') = run es s' in (r, ev @ ev'))
      | (Exited st s', ev) \<Rightarrow> (Exited st s', ev))"

section \<open>Notions used in the statements\<close>


text \<open>
  The values Python can hash, and so look up in \<^verbatim>\<open>last_nudged_time\<close>; a rule is well
  typed when its threshold is a number and its action can be hashed.
\<close>

definition hashable :: "json \<Rightarrow> bool" where
  "hashable j = (case j of JArr xs \<Rightarrow> False | JObj m \<Rightarrow> False | _ \<Rightarrow> True)"

definition well_typed :: "rule \<Rightarrow> bool" where
  "well_typed r =
     (case r of (rule_category, rule_duration, action) \<Rightarrow>
        (case rule_duration of JNum threshold \<Rightarrow> hashable action | _ \<Rightarrow> False))"

text \<open>
  What the file's content stands for at this moment, whatever its modification time: a
  rule list, or the exception reading it raises.
\<close>

definition current_rules :: "config_file \<Rightarrow> error + rule list" where
  "current_rules f =
     (case f of
        None \<Rightarrow> Inr DEFAULT_RULES
      | Some (mtime, content) \<Rightarrow>
          (case content of
             NotJson \<Rightarrow> Inr DEFAULT_RULES
           | Unreadable \<Rightarrow> Inl ReadError
           | Json j \<Rightarrow> parse_rules j))"

text \<open>A sequence of calls of \<^verbatim>\<open>categorize_app\<close>, each with the classifier's behaviour.\<close>

fun categorize_all :: "AIAgent \<Rightarrow> ((error + string) \<times> app_data) list \<Rightarrow> AIAgent" where
  "categorize_all a [] = a"
| "categorize_all a ((reply, d) # calls) =
     categorize_all (fst (snd (categorize_app reply a d))) calls"

text \<open>The category names as cache values.\<close>

definition valid_values :: "json set" where
  "valid_values = JStr ` valid_categories"

text \<open>
  The datetimes the \<^verbatim>\<open>datetime\<close> constructor admits, and the ISO-8601 form
  \<^verbatim>\<open>YYYY-MM-DDTHH:MM:SS\<close>, followed by \<^verbatim>\<open>.ffffff\<close> when the microsecond is not zero,
  written digit by digit.
\<close>

definition valid_datetime :: "datetime \<Rightarrow> bool" where
  "valid_datetime d =
     (1 \<le> year d \<and> year d \<le> 9999 \<and> 1 \<le> month d \<and> month d \<le> 12 \<and>
      1 \<le> day d \<and> day d \<le> 31 \<and> hour d < 24 \<and> minute d < 60 \<and> second d < 60 \<and>
      microsecond d < 1000000)"

definition iso8601 :: "datetime \<Rightarrow> string" where
  "iso8601 d =
     [digit_char (year d div 1000), digit_char (year d div 100), digit_char (year d div 10),
      digit_char (year d), CHR ''-'',
      digit_char (month d div 10), digit_char (month d), CHR ''-'',
      digit_char (day d div 10), digit_char (day d), CHR ''T'',
      digit_char (hour d div 10), digit_char (hour d), CHR '':'',
      digit_char (minute d div 10), digit_char (minute d), CHR '':'',
      digit_char (second d div 10), digit_char (second d)] @
     (if microsecond d = 0 then []
      else [CHR ''.'',
            digit_char (microsecond d div 100000), digit_char (microsecond d div 10000),
            digit_char (microsecond d div 1000), digit_char (microsecond d div 100),
            digit_char (microsecond d div 10), digit_char (microsecond d)])"

text \<open>A pass in which the monitor reports an activity that the loop body acts on.\<close>

definition activity :: "tick_env \<Rightarrow> bool" where
  "activity e = (case observed e of Inl err \<Rightarrow> False | Inr v \<Rightarrow> truthy_app v)"

text \<open>
  What holds of the session fields in every state the loop reaches: before the first
  session is opened there is none; afterwards the label is that of the last activity for
  which a session was opened.
\<close>

definition session_inv :: "BilgeApp \<Rightarrow> bool" where
  "session_inv s =
     (case last_app_data s of
        None \<Rightarrow> current_session_app_name s = None \<and> current_session_category s = JNull
      | Some d \<Rightarrow>
          truthy_app (Some d) \<and> current_session_app_name s = Some (snd (get_app_info d)))"




text \<open>The application state a run has reached, whether it goes on or has ended.\<close>

definition state_of :: "run_state \<Rightarrow> BilgeApp" where
  "state_of r = (case r of Running s \<Rightarrow> s | Exited st s \<Rightarrow> s)"

text \<open>
  At most one nudge per session, read off the actions of a run: from a state whose
  per-session flag is \<open>nudged\<close>, a rule evaluation or a notification occurs only while the
  flag is clear, a notification sets it, and the start of a session clears it.
  \<open>flag_after\<close> is the flag the actions leave.
\<close>

fun nudges_once :: "bool \<Rightarrow> event list \<Rightarrow> bool" where
  "nudges_once nudged [] = True"
| "nudges_once nudged (PrintSessionStarted n c # evs) = nudges_once False evs"
| "nudges_once nudged (EvaluateRules # evs) = (\<not> nudged \<and> nudges_once nudged evs)"
| "nudges_once nudged (Notify t m # evs) = (\<not> nudged \<and> nudges_once True evs)"
| "nudges_once nudged (ev # evs) = nudges_once nudged evs"

fun flag_after :: "bool \<Rightarrow> event list \<Rightarrow> bool" where
  "flag_after nudged [] = nudged"
| "flag_after nudged (PrintSessionStarted n c # evs) = flag_after False evs"
| "flag_after nudged (Notify t m # evs) = flag_after True evs"
| "flag_after nudged (ev # evs) = flag_after nudged evs"

text \<open>Actions that neither evaluate rules, nor notify, nor start a session.\<close>

definition neutral :: "event list \<Rightarrow> bool" where
  "neutral evs = (\<forall>f. nudges_once f evs \<and> flag_after f evs = f)"

section \<open>A worked scenario\<close>

text \<open>
  Clock readings on 2025-08-20 shortly after 10:00, a pass in which nothing is observed,
  and the application as \<^verbatim>\<open>BilgeApp.__init__\<close> builds it when no file exists yet. The
  other passes vary the quiet one: Code is seen (classified as Work) at 10:00:05, seen again
  31.25 seconds later, then Slack is seen; a Chrome tab is seen; Code is seen while the
  rule file holds \<^verbatim>\<open>{}\<close> and the user presses Ctrl-C during the sleep that follows; and
  the monitor reports an empty application name. The durations of the scenario, 0 and
  31.25 seconds, are doubles, so no float division rounds there.
\<close>

definition clock_at :: "nat \<Rightarrow> nat \<Rightarrow> datetime" where
  "clock_at sec usec =
     \<lparr> year = 2025, month = 8, day = 20, hour = 10, minute = 0, second = sec,
       microsecond = usec \<rparr>"

definition quiet_env :: tick_env where
  "quiet_env =
     \<lparr> observed = Inr None, category_reply = Inl ClassifierError,
       now_end = clock_at 0 0, now_start = clock_at 0 0, now_duration = clock_at 0 0,
       round_double = (\<lambda>x. x),
       config = None, time_now = 0, nudge_reply = Inl ClassifierError, notify_ok = True,
       sigint = False, now_exit = clock_at 0 0 \<rparr>"

definition fresh_app :: BilgeApp where
  "fresh_app = projr (BilgeApp_init LogMissing None CacheMissing (clock_at 0 0))"

definition code_env :: tick_env where
  "code_env = quiet_env \<lparr> observed := Inr (Some (AppStr ''Code'')),
                 category_reply := Inr ''Work'',
                 now_start := clock_at 5 0, now_duration := clock_at 5 0, time_now := 1000 \<rparr>"

definition code_later_env :: tick_env where
  "code_later_env = code_env \<lparr> now_duration := clock_at 36 250000, time_now := 1031 \<rparr>"

definition slack_env :: tick_env where
  "slack_env = quiet_env \<lparr> observed := Inr (Some (AppStr ''Slack'')),
                 category_reply := Inr ''Communication'',
                 now_end := clock_at 36 250000, now_start := clock_at 36 250000,
                 now_duration := clock_at 36 250000, time_now := 1031 \<rparr>"

definition github_env :: tick_env where
  "github_env =
     quiet_env \<lparr> observed := Inr (Some (AppDict
                    \<lparr> window_name = ''Google Chrome'', active_tab_title = ''GitHub'',
                      active_tab_url = Some ''https://github.com'' \<rparr>)),
                 category_reply := Inr ''Browsing'' \<rparr>"

definition broken_config_env :: tick_env where
  "broken_config_env =
     code_env \<lparr> config := Some (1, Json (JObj Map.empty)), sigint := True,
                now_duration := clock_at 36 250000, now_exit := clock_at 40 0 \<rparr>"


text \<open>The states the scenario passes through.\<close>

definition in_code :: BilgeApp where
  "in_code =
     \<lparr> data_manager = \<lparr> data = JArr [], log_store = LogMissing \<rparr>,
       rules_engine = \<lparr> rules = DEFAULT_RULES, last_nudged_time = Map.empty,
                        last_modified_time = 0 \<rparr>,
       ai_agent = \<lparr> category_cache = JObj [''Code'' \<mapsto> JStr ''Work''],
                    cache_store = CacheJson (JObj [''Code'' \<mapsto> JStr ''Work'']) \<rparr>,
       current_session_start_time = clock_at 5 0,
       current_session_category = JStr ''Work'',
       current_session_app_name = Some ''Code'',
       last_app_data = Some (AppStr ''Code''),
       nudged_for_session = False \<rparr>"

definition nudged_code :: BilgeApp where
  "nudged_code =
     in_code \<lparr> rules_engine :=
                 \<lparr> rules = DEFAULT_RULES,
                   last_nudged_time = [JStr ''short_work_session'' \<mapsto> 1031],
                   last_modified_time = 0 \<rparr>,
               nudged_for_session := True \<rparr>"

text \<open>
  The same start and the same first pass when the log file of the day holds \<^verbatim>\<open>{}\<close>, and
  the start when the cache file holds \<^verbatim>\<open>[]\<close>: both are valid JSON, which the loaders
  return as it is.
\<close>

definition object_log :: DataManager where
  "object_log = \<lparr> data = JObj Map.empty, log_store = LogJson (JObj Map.empty) \<rparr>"

definition list_cache :: AIAgent where
  "list_cache = \<lparr> category_cache = JArr [], cache_store = CacheJson (JArr []) \<rparr>"

section \<open>Evaluation lemmas\<close>

lemma replicate_numeral: "replicate (numeral k) x = x # replicate (pred_numeral k) x"
  by (simp add: numeral_eq_Suc)

lemmas datetime_eval =
  isoformat_def zero_pad_def digits.simps digit_char_def replicate_numeral
  total_seconds_between_def microseconds_of_def toordinal_def days_before_year_def
  days_before_month_def is_leap_def Let_def

section \<open>The session log (\<^verbatim>\<open>DataManager.save_session\<close>)\<close>

text \<open>\<^verbatim>\<open>isoformat\<close> of an admissible datetime has the ISO-8601 form.\<close>

lemma digits_1: "n < 10 \<Longrightarrow> digits n = [digit_char n]"
  by (simp add: digits.simps)

lemma digits_step: "10 \<le> n \<Longrightarrow> digits n = digits (n div 10) @ [digit_char n]"
  by (subst digits.simps) simp

lemma digit_char_zero: "digit_char 0 = CHR ''0''"
  by (simp add: digit_char_def)

lemma zero_pad_1: "n < 10 \<Longrightarrow> zero_pad (Suc 0) n = [digit_char n]"
  by (simp add: zero_pad_def digits_1)

lemma zero_pad_step:
  assumes "0 < w"
  shows "zero_pad (Suc w) n = zero_pad w (n div 10) @ [digit_char n]"
proof (cases "n < 10")
  case True
  from assms obtain v where w: "w = Suc v" by (cases w) auto
  from True show ?thesis
    by (simp add: zero_pad_def Let_def digits_1 digit_char_zero w replicate_append_same)
next
  case False
  then have "digits n = digits (n div 10) @ [digit_char n]" by (simp add: digits_step)
  then show ?thesis
    by (simp add: zero_pad_def Let_def Suc_diff_le)
qed

lemma zero_pad_2: "n < 100 \<Longrightarrow> zero_pad 2 n = [digit_char (n div 10), digit_char n]"
proof -
  assume "n < 100"
  then have "n div 10 < 10" by simp
  then have "zero_pad (Suc (Suc 0)) n = [digit_char (n div 10), digit_char n]"
    by (simp add: zero_pad_step zero_pad_1)
  then show ?thesis by (simp add: numeral_2_eq_2)
qed

lemma zero_pad_4:
  assumes "n < 10000"
  shows "zero_pad 4 n =
           [digit_char (n div 1000), digit_char (n div 100), digit_char (n div 10), digit_char n]"
proof -
  have a: "zero_pad 4 n = zero_pad 3 (n div 10) @ [digit_char n]"
    using zero_pad_step [of 3 n] by simp
  have b: "zero_pad 3 (n div 10) = zero_pad 2 (n div 10 div 10) @ [digit_char (n div 10)]"
    using zero_pad_step [of 2 "n div 10"] by simp
  from assms have "n div 10 div 10 < 100" by simp
  then have "zero_pad 2 (n div 10 div 10) =
               [digit_char (n div 10 div 10 div 10), digit_char (n div 10 div 10)]"
    by (rule zero_pad_2)
  with a b show ?thesis by (simp add: div_mult2_eq [symmetric])
qed

lemma zero_pad_6:
  assumes "n < 1000000"
  shows "zero_pad 6 n =
           [digit_char (n div 100000), digit_char (n div 10000), digit_char (n div 1000),
            digit_char (n div 100), digit_char (n div 10), digit_char n]"
proof -
  have a: "zero_pad 6 n = zero_pad 5 (n div 10) @ [digit_char n]"
    using zero_pad_step [of 5 n] by simp
  have b: "zero_pad 5 (n div 10) = zero_pad 4 (n div 10 div 10) @ [digit_char (n div 10)]"
    using zero_pad_step [of 4 "n div 10"] by simp
  from assms have "n div 10 div 10 < 10000" by simp
  then have "zero_pad 4 (n div 10 div 10) =
               [digit_char (n div 10 div 10 div 1000), digit_char (n div 10 div 10 div 100),
                digit_char (n div 10 div 10 div 10), digit_char (n div 10 div 10)]"
    by (rule zero_pad_4)
  with a b show ?thesis by (simp add: div_mult2_eq [symmetric])
qed

lemma isoformat_iso8601: "valid_datetime d \<Longrightarrow> isoformat d = iso8601 d"
  by (simp add: valid_datetime_def isoformat_def iso8601_def zero_pad_2 zero_pad_4 zero_pad_6)

lemma save_session_list:
  "data dm = JArr items \<Longrightarrow>
   save_session rnd dm name cat s e =
     Inr \<lparr> data = JArr (items @ [session_entry rnd name cat s e]),
           log_store = LogJson (JArr (items @ [session_entry rnd name cat s e])) \<rparr>"
  by (cases dm) (simp add: save_session_def save_data_def)

lemma save_session_other:
  "(\<forall>items. data dm \<noteq> JArr items) \<Longrightarrow> save_session rnd dm name cat s e = Inl AttributeError"
  by (cases "data dm") (simp_all add: save_session_def)

lemma save_session_Inr:
  "save_session rnd dm name cat s e = Inr dm' \<Longrightarrow>
   \<exists>items. data dm = JArr items \<and> data dm' = JArr (items @ [session_entry rnd name cat s e])"
  by (cases "data dm") (auto simp: save_session_def save_data_def)

text \<open>
  Claim C8, as the code has it. When the log held in memory is a list, \<^verbatim>\<open>save_session\<close>
  returns normally, having appended exactly one record and rewritten the file with the
  extended list; the records stored before are its unchanged prefix. The record holds
  \<open>start_time\<close> and \<open>end_time\<close> as the \<^verbatim>\<open>isoformat\<close> renderings of the two datetimes, which
  have the ISO-8601 form for every datetime the standard library admits, the name and the
  category as given, and as \<open>duration_seconds\<close> the float \<^verbatim>\<open>total_seconds()\<close> of
  \<open>end_time - start_time\<close>: the microseconds of the difference divided by \<open>10\<^sup>6\<close>, rounded
  to a double. When the log held in memory is anything but a list, \<^verbatim>\<open>save_session\<close>
  raises \<^verbatim>\<open>AttributeError\<close>. The log held in memory at start is the JSON value of the
  file, whatever it is, and the empty list when the file is missing or cannot be parsed.
\<close>

theorem save_session_appends:
  "(\<forall>items. data dm = JArr items \<longrightarrow>
      save_session rnd dm name cat s e =
        Inr \<lparr> data = JArr (items @ [session_entry rnd name cat s e]),
              log_store = LogJson (JArr (items @ [session_entry rnd name cat s e])) \<rparr>)
   \<and> ((\<forall>items. data dm \<noteq> JArr items) \<longrightarrow>
        save_session rnd dm name cat s e = Inl AttributeError)
   \<and> session_entry rnd name cat s e =
       JObj [''start_time'' \<mapsto> JStr (isoformat s),
             ''end_time'' \<mapsto> JStr (isoformat e),
             ''app_name'' \<mapsto> JStr name,
             ''category'' \<mapsto> cat,
             ''duration_seconds'' \<mapsto>
                JNum (rnd (real_of_int (microseconds_of e - microseconds_of s) / 1000000))]
   \<and> (valid_datetime s \<longrightarrow> isoformat s = iso8601 s)
   \<and> (valid_datetime e \<longrightarrow> isoformat e = iso8601 e)
   \<and> DataManager_init (LogJson j) = Inr \<lparr> data = j, log_store = LogJson j \<rparr>
   \<and> DataManager_init LogMissing = Inr \<lparr> data = JArr [], log_store = LogMissing \<rparr>
   \<and> DataManager_init LogNotJson = Inr \<lparr> data = JArr [], log_store = LogNotJson \<rparr>"
proof -
  have 1: "\<forall>items. data dm = JArr items \<longrightarrow>
      save_session rnd dm name cat s e =
        Inr \<lparr> data = JArr (items @ [session_entry rnd name cat s e]),
              log_store = LogJson (JArr (items @ [session_entry rnd name cat s e])) \<rparr>"
    by (simp add: save_session_list)
  have 2: "(\<forall>items. data dm \<noteq> JArr items) \<longrightarrow>
        save_session rnd dm name cat s e = Inl AttributeError"
    by (simp add: save_session_other)
  have 3: "session_entry rnd name cat s e =
       JObj [''start_time'' \<mapsto> JStr (isoformat s),
             ''end_time'' \<mapsto> JStr (isoformat e),
             ''app_name'' \<mapsto> JStr name,
             ''category'' \<mapsto> cat,
             ''duration_seconds'' \<mapsto>
                JNum (rnd (real_of_int (microseconds_of e - microseconds_of s) / 1000000))]"
    by (simp add: session_entry_def total_seconds_between_def)
  have 4: "valid_datetime s \<longrightarrow> isoformat s = iso8601 s"
    and 5: "valid_datetime e \<longrightarrow> isoformat e = iso8601 e"
    by (simp_all add: isoformat_iso8601)
  have 6: "DataManager_init (LogJson j) = Inr \<lparr> data = j, log_store = LogJson j \<rparr>"
    "DataManager_init LogMissing = Inr \<lparr> data = JArr [], log_store = LogMissing \<rparr>"
    "DataManager_init LogNotJson = Inr \<lparr> data = JArr [], log_store = LogNotJson \<rparr>"
    by (simp_all add: DataManager_init_def load_data_def)
  from 1 2 3 4 5 6 show ?thesis by (intro conjI)
qed

theorem save_session_appends_witness:
  "valid_datetime (clock_at 5 0) \<and> valid_datetime (clock_at 36 250000)
   \<and> save_session (\<lambda>x. x) \<lparr> data = JArr [JStr ''earlier''], log_store = LogJson (JArr [JStr ''earlier'']) \<rparr>
        ''Code'' (JStr ''Work'') (clock_at 5 0) (clock_at 36 250000)
     = Inr \<lparr> data = JArr [JStr ''earlier'',
                 JObj [''start_time'' \<mapsto> JStr ''2025-08-20T10:00:05'',
                       ''end_time'' \<mapsto> JStr ''2025-08-20T10:00:36.250000'',
                       ''app_name'' \<mapsto> JStr ''Code'',
                       ''category'' \<mapsto> JStr ''Work'',
                       ''duration_seconds'' \<mapsto> JNum (125 / 4)]],
             log_store = LogJson (JArr [JStr ''earlier'',
                 JObj [''start_time'' \<mapsto> JStr ''2025-08-20T10:00:05'',
                       ''end_time'' \<mapsto> JStr ''2025-08-20T10:00:36.250000'',
                       ''app_name'' \<mapsto> JStr ''Code'',
                       ''category'' \<mapsto> JStr ''Work'',
                       ''duration_seconds'' \<mapsto> JNum (125 / 4)]]) \<rparr>
   \<and> iso8601 (clock_at 5 0) = ''2025-08-20T10:00:05''
   \<and> iso8601 (clock_at 36 250000) = ''2025-08-20T10:00:36.250000''
   \<and> save_session (\<lambda>x. x) object_log ''Code'' (JStr ''Work'') (clock_at 5 0) (clock_at 36 250000)
       = Inl AttributeError"
proof -
  have v: "valid_datetime (clock_at 5 0)" "valid_datetime (clock_at 36 250000)"
    by (simp_all add: valid_datetime_def clock_at_def)
  have i: "iso8601 (clock_at 5 0) = ''2025-08-20T10:00:05''"
    "iso8601 (clock_at 36 250000) = ''2025-08-20T10:00:36.250000''"
    by (simp_all add: clock_at_def iso8601_def digit_char_def)
  have en: "session_entry (\<lambda>x. x) ''Code'' (JStr ''Work'') (clock_at 5 0) (clock_at 36 250000) =
              JObj [''start_time'' \<mapsto> JStr ''2025-08-20T10:00:05'',
                    ''end_time'' \<mapsto> JStr ''2025-08-20T10:00:36.250000'',
                    ''app_name'' \<mapsto> JStr ''Code'',
                    ''category'' \<mapsto> JStr ''Work'',
                    ''duration_seconds'' \<mapsto> JNum (125 / 4)]"
    by (simp add: session_entry_def clock_at_def datetime_eval)
  have o: "\<forall>items. data object_log \<noteq> JArr items" by (simp add: object_log_def)
  from save_session_appends [of "\<lparr> data = JArr [JStr ''earlier''],
           log_store = LogJson (JArr [JStr ''earlier'']) \<rparr>" "\<lambda>x. x" "''Code''" "JStr ''Work''"
      "clock_at 5 0" "clock_at 36 250000"]
  have a: "save_session (\<lambda>x. x)
             \<lparr> data = JArr [JStr ''earlier''], log_store = LogJson (JArr [JStr ''earlier'']) \<rparr>
             ''Code'' (JStr ''Work'') (clock_at 5 0) (clock_at 36 250000) =
           Inr \<lparr> data = JArr [JStr ''earlier'',
                    session_entry (\<lambda>x. x) ''Code'' (JStr ''Work'') (clock_at 5 0)
                      (clock_at 36 250000)],
                 log_store = LogJson (JArr [JStr ''earlier'',
                    session_entry (\<lambda>x. x) ''Code'' (JStr ''Work'') (clock_at 5 0)
                      (clock_at 36 250000)]) \<rparr>"
    by simp
  from save_session_appends [of object_log "\<lambda>x. x" "''Code''" "JStr ''Work''"
      "clock_at 5 0" "clock_at 36 250000"] o
  have b: "save_session (\<lambda>x. x) object_log ''Code'' (JStr ''Work'') (clock_at 5 0)
             (clock_at 36 250000) = Inl AttributeError"
    by blast
  show ?thesis
    unfolding a b en using v i by simp
qed

text \<open>
  Claim C8 as stated fails when the log file of the day holds valid JSON that is not a
  list, for instance \<^verbatim>\<open>{}\<close>: \<^verbatim>\<open>_load_data\<close> returns the dictionary as it is, and
  \<^verbatim>\<open>save_session\<close> raises \<^verbatim>\<open>AttributeError\<close> at \<^verbatim>\<open>self.data.append\<close>. No record is
  appended and the file is not written.
\<close>

theorem object_log_counterexample:
  "DataManager_init (LogJson (JObj Map.empty)) = Inr object_log
   \<and> save_session (\<lambda>x. x) object_log ''Code'' (JStr ''Work'') (clock_at 5 0) (clock_at 36 250000)
       = Inl AttributeError"
  by (simp add: DataManager_init_def load_data_def object_log_def save_session_def)

section \<open>The rule engine (\<^verbatim>\<open>RulesEngine\<close>)\<close>


lemma scan_rules_well_typed:
  "list_all well_typed rs \<Longrightarrow> \<exists>r lnt'. scan_rules rs lnt now cat dur = Inr (r, lnt')"
proof (induction rs)
  case Nil
  show ?case by simp
next
  case (Cons x rs)
  obtain rc thr act where x: "x = (rc, thr, act)" by (cases x) auto
  from Cons.prems obtain t where t: "thr = JNum t" and h: "hashable act"
    unfolding x by (auto simp: well_typed_def split: json.splits)
  from Cons have ih: "\<exists>r lnt'. scan_rules rs lnt now cat dur = Inr (r, lnt')" by simp
  from h ih show ?case
    unfolding x t
    by (cases act) (auto simp: hashable_def split: option.splits)
qed

lemma DEFAULT_RULES_well_typed: "list_all well_typed DEFAULT_RULES"
  by (simp add: DEFAULT_RULES_def well_typed_def hashable_def)

lemma load_rules_current: "fst (load_rules f eng) = current_rules f"
  by (simp add: load_rules_def current_rules_def Let_def
      split: option.splits prod.splits config_content.splits)

lemma load_rules_engine:
  "rules (fst (snd (load_rules f eng))) = rules eng"
  "last_nudged_time (fst (snd (load_rules f eng))) = last_nudged_time eng"
  "last_modified_time (fst (snd (load_rules f eng))) =
     (case f of None \<Rightarrow> last_modified_time eng
      | Some (mtime, content) \<Rightarrow> max mtime (last_modified_time eng))"
  by (simp_all add: load_rules_def Let_def max_def
      split: option.splits prod.splits config_content.splits)

lemma load_rules_events:
  "removeAll PrintRulesModified (snd (snd (load_rules f eng))) =
     (case f of None \<Rightarrow> [PrintRulesNotFound]
      | Some (mtime, content) \<Rightarrow>
          (case content of NotJson \<Rightarrow> [PrintRulesInvalid] | _ \<Rightarrow> []))"
  by (simp add: load_rules_def Let_def
      split: option.splits prod.splits config_content.splits)

lemma evaluate_load:
  "evaluate_current_session f now eng cat dur =
     (case current_rules f of
        Inl err \<Rightarrow> (Inl err, fst (snd (load_rules f eng)), snd (snd (load_rules f eng)))
      | Inr rs \<Rightarrow>
          (case scan_rules rs (last_nudged_time eng) now cat dur of
             Inl err \<Rightarrow>
               (Inl err, (fst (snd (load_rules f eng))) \<lparr> rules := rs \<rparr>,
                snd (snd (load_rules f eng)))
           | Inr (r, lnt) \<Rightarrow>
               (Inr r, (fst (snd (load_rules f eng))) \<lparr> rules := rs, last_nudged_time := lnt \<rparr>,
                snd (snd (load_rules f eng)))))"
proof -
  obtain x eng' ev where l: "load_rules f eng = (x, eng', ev)" by (rule prod_cases3)
  from load_rules_current [of f eng] l have c: "current_rules f = x" by simp
  from load_rules_engine(2) [of f eng] l have n: "last_nudged_time eng' = last_nudged_time eng"
    by simp
  show ?thesis
    unfolding evaluate_current_session_def l c
    by (simp add: n split: sum.splits prod.splits)
qed





text \<open>
  Claim C6 as stated fails. An engine that has loaded a rule set of its own and then finds
  the file gone evaluates on the built-in defaults, not on the rule set it had: here the
  previous rule (Work, 5 seconds) would have fired at 6 seconds, and the call returns
  none. And a failed load can be fatal to the evaluation: a file that cannot be read as
  text, or whose JSON is not an object with the expected keys, makes
  \<^verbatim>\<open>evaluate_current_session\<close> raise.
\<close>

theorem load_failure_counterexample:
  "RulesEngine_init
       (Some (1, Json (JObj [''rules'' \<mapsto> JArr [JObj [''category'' \<mapsto> JStr ''Work'',
                                                  ''duration_seconds'' \<mapsto> JNum 5,
                                                  ''action_name'' \<mapsto> JStr ''stand_up'']]]))) =
     Inr \<lparr> rules = [(JStr ''Work'', JNum 5, JStr ''stand_up'')], last_nudged_time = Map.empty,
           last_modified_time = 1 \<rparr>
   \<and> evaluate_current_session None 100
        \<lparr> rules = [(JStr ''Work'', JNum 5, JStr ''stand_up'')], last_nudged_time = Map.empty,
          last_modified_time = 1 \<rparr> (JStr ''Work'') 6
     = (Inr None,
        \<lparr> rules = DEFAULT_RULES, last_nudged_time = Map.empty, last_modified_time = 1 \<rparr>,
        [PrintRulesNotFound])
   \<and> scan_rules [(JStr ''Work'', JNum 5, JStr ''stand_up'')] Map.empty 100 (JStr ''Work'') 6
        = Inr (Some (JStr ''stand_up'', JStr ''Work'', 6), [JStr ''stand_up'' \<mapsto> 100])
   \<and> evaluate_current_session (Some (2, Unreadable)) 100
        \<lparr> rules = [(JStr ''Work'', JNum 5, JStr ''stand_up'')], last_nudged_time = Map.empty,
          last_modified_time = 1 \<rparr> (JStr ''Work'') 6
     = (Inl ReadError,
        \<lparr> rules = [(JStr ''Work'', JNum 5, JStr ''stand_up'')], last_nudged_time = Map.empty,
          last_modified_time = 2 \<rparr>,
        [PrintRulesModified])
   \<and> evaluate_current_session (Some (2, Json (JArr []))) 100
        \<lparr> rules = [(JStr ''Work'', JNum 5, JStr ''stand_up'')], last_nudged_time = Map.empty,
          last_modified_time = 1 \<rparr> (JStr ''Work'') 6
     = (Inl TypeError,
        \<lparr> rules = [(JStr ''Work'', JNum 5, JStr ''stand_up'')], last_nudged_time = Map.empty,
          last_modified_time = 2 \<rparr>,
        [PrintRulesModified])"
  by (simp add: evaluate_current_session_def RulesEngine_init_def load_rules_def
        parse_rules_def parse_rule_def DEFAULT_RULES_def py_int_def)

text \<open>
  Claim C6, as the code has it. When the rule file is missing, or \<^verbatim>\<open>json.load\<close> rejects
  its text with \<^verbatim>\<open>JSONDecodeError\<close>, \<^verbatim>\<open>load_rules\<close> returns the built-in default rules,
  whatever rule set the engine held before, and the evaluation proceeds on them and
  returns normally. Every other failure of the load is raised to the caller of
  \<^verbatim>\<open>evaluate_current_session\<close>, and the engine then keeps the rules and the debounce
  state it had: the error of reading a file that is not text, and the \<^verbatim>\<open>KeyError\<close> or
  \<^verbatim>\<open>TypeError\<close> of building the rules from JSON of another shape.
\<close>

theorem load_failure_uses_defaults:
  "((f = None \<or> (\<exists>m. f = Some (m, NotJson))) \<longrightarrow>
       fst (load_rules f eng) = Inr DEFAULT_RULES
       \<and> (\<exists>r lnt.
            scan_rules DEFAULT_RULES (last_nudged_time eng) now cat dur = Inr (r, lnt)
            \<and> fst (evaluate_current_session f now eng cat dur) = Inr r
            \<and> rules (fst (snd (evaluate_current_session f now eng cat dur))) = DEFAULT_RULES
            \<and> last_nudged_time (fst (snd (evaluate_current_session f now eng cat dur))) = lnt))
   \<and> (\<forall>err. fst (load_rules f eng) = Inl err \<longrightarrow>
         f \<noteq> None \<and> (\<forall>m. f \<noteq> Some (m, NotJson))
         \<and> fst (evaluate_current_session f now eng cat dur) = Inl err
         \<and> rules (fst (snd (evaluate_current_session f now eng cat dur))) = rules eng
         \<and> last_nudged_time (fst (snd (evaluate_current_session f now eng cat dur))) =
             last_nudged_time eng)
   \<and> (\<forall>m. fst (load_rules (Some (m, Unreadable)) eng) = Inl ReadError)
   \<and> (\<forall>m j. fst (load_rules (Some (m, Json j)) eng) = parse_rules j)"
proof (intro conjI allI impI)
  assume a: "f = None \<or> (\<exists>m. f = Some (m, NotJson))"
  then have c: "current_rules f = Inr DEFAULT_RULES"
    by (auto simp: current_rules_def)
  then show "fst (load_rules f eng) = Inr DEFAULT_RULES"
    by (simp add: load_rules_current)
  obtain r lnt where sc:
    "scan_rules DEFAULT_RULES (last_nudged_time eng) now cat dur = Inr (r, lnt)"
    using scan_rules_well_typed [OF DEFAULT_RULES_well_typed] by blast
  show "\<exists>r lnt.
            scan_rules DEFAULT_RULES (last_nudged_time eng) now cat dur = Inr (r, lnt)
            \<and> fst (evaluate_current_session f now eng cat dur) = Inr r
            \<and> rules (fst (snd (evaluate_current_session f now eng cat dur))) = DEFAULT_RULES
            \<and> last_nudged_time (fst (snd (evaluate_current_session f now eng cat dur))) = lnt"
    by (rule exI [of _ r], rule exI [of _ lnt]) (simp add: evaluate_load c sc)
next
  fix err
  assume e: "fst (load_rules f eng) = Inl err"
  then have c: "current_rules f = Inl err" by (simp add: load_rules_current)
  then show "f \<noteq> None"
    by (cases f) (simp_all add: current_rules_def)
  show "f \<noteq> Some (m, NotJson)" for m
    using c by (auto simp: current_rules_def)
  show "fst (evaluate_current_session f now eng cat dur) = Inl err"
    by (simp add: evaluate_load c)
  show "rules (fst (snd (evaluate_current_session f now eng cat dur))) = rules eng"
    by (simp add: evaluate_load c load_rules_engine)
  show "last_nudged_time (fst (snd (evaluate_current_session f now eng cat dur))) =
             last_nudged_time eng"
    by (simp add: evaluate_load c load_rules_engine)
next
  fix m
  show "fst (load_rules (Some (m, Unreadable)) eng) = Inl ReadError"
    by (simp add: load_rules_current current_rules_def)
next
  fix m j
  show "fst (load_rules (Some (m, Json j)) eng) = parse_rules j"
    by (simp add: load_rules_current current_rules_def)
qed

theorem load_failure_uses_defaults_witness:
  "evaluate_current_session (Some (2, NotJson)) 100
          \<lparr> rules = [(JStr ''Work'', JNum 5, JStr ''stand_up'')], last_nudged_time = Map.empty,
            last_modified_time = 1 \<rparr> (JStr ''Work'') 31
     = (Inr (Some (JStr ''short_work_session'', JStr ''Work'', 31)),
        \<lparr> rules = DEFAULT_RULES, last_nudged_time = [JStr ''short_work_session'' \<mapsto> 100],
          last_modified_time = 2 \<rparr>,
        [PrintRulesModified, PrintRulesInvalid])
   \<and> fst (load_rules (Some (2, Json (JObj Map.empty)))
            \<lparr> rules = [(JStr ''Work'', JNum 5, JStr ''stand_up'')],
              last_nudged_time = Map.empty, last_modified_time = 1 \<rparr>) = Inl KeyError
   \<and> rules (fst (snd (evaluate_current_session (Some (2, Json (JObj Map.empty))) 100
          \<lparr> rules = [(JStr ''Work'', JNum 5, JStr ''stand_up'')], last_nudged_time = Map.empty,
            last_modified_time = 1 \<rparr> (JStr ''Work'') 31)))
       = [(JStr ''Work'', JNum 5, JStr ''stand_up'')]"
proof -
  let ?eng = "\<lparr> rules = [(JStr ''Work'', JNum 5, JStr ''stand_up'')],
                last_nudged_time = Map.empty, last_modified_time = 1 \<rparr>"
  have a: "evaluate_current_session (Some (2, NotJson)) 100 ?eng (JStr ''Work'') 31
     = (Inr (Some (JStr ''short_work_session'', JStr ''Work'', 31)),
        \<lparr> rules = DEFAULT_RULES, last_nudged_time = [JStr ''short_work_session'' \<mapsto> 100],
          last_modified_time = 2 \<rparr>,
        [PrintRulesModified, PrintRulesInvalid])"
    by (simp add: evaluate_current_session_def load_rules_def DEFAULT_RULES_def py_int_def)
  have b: "fst (load_rules (Some (2, Json (JObj Map.empty))) ?eng) = Inl KeyError"
    by (simp add: load_rules_def parse_rules_def)
  from load_failure_uses_defaults [of "Some (2, Json (JObj Map.empty))" ?eng 100
      "JStr ''Work''" 31] b
  have c: "rules (fst (snd (evaluate_current_session (Some (2, Json (JObj Map.empty))) 100
             ?eng (JStr ''Work'') 31))) = [(JStr ''Work'', JNum 5, JStr ''stand_up'')]"
    by simp
  from load_failure_uses_defaults [of "Some (2, NotJson)" ?eng 100 "JStr ''Work''" 31]
  have "rules (fst (snd (evaluate_current_session (Some (2, NotJson)) 100 ?eng
                 (JStr ''Work'') 31))) = DEFAULT_RULES"
    by auto
  with a b c show ?thesis by simp
qed

text \<open>
  Claim C10, as the code has it. Every call of \<^verbatim>\<open>evaluate_current_session\<close> reads the
  rule file again and acts on what it holds now. When the file yields rules (its own, or
  the built-in defaults when it is missing or \<^verbatim>\<open>json.load\<close> raises
  \<^verbatim>\<open>JSONDecodeError\<close>), the result and the debounce state are those of scanning these
  rules, and they become the engine's rules. When reading the file raises anything else,
  the call raises the same, and the engine keeps its rules and its debounce state. Neither
  the file's modification time nor the time the engine remembers enters any of this: the
  comparison of the two decides only whether the notice is printed and the later time
  remembered.
\<close>

theorem evaluate_rereads_file:
  "fst (evaluate_current_session f now eng cat dur) =
     (case current_rules f of
        Inl err \<Rightarrow> Inl err
      | Inr rs \<Rightarrow>
          (case scan_rules rs (last_nudged_time eng) now cat dur of
             Inl err \<Rightarrow> Inl err
           | Inr (r, lnt) \<Rightarrow> Inr r))
   \<and> rules (fst (snd (evaluate_current_session f now eng cat dur))) =
       (case current_rules f of Inl err \<Rightarrow> rules eng | Inr rs \<Rightarrow> rs)
   \<and> last_nudged_time (fst (snd (evaluate_current_session f now eng cat dur))) =
       (case current_rules f of
          Inl err \<Rightarrow> last_nudged_time eng
        | Inr rs \<Rightarrow>
            (case scan_rules rs (last_nudged_time eng) now cat dur of
               Inl err \<Rightarrow> last_nudged_time eng
             | Inr (r, lnt) \<Rightarrow> lnt))
   \<and> last_modified_time (fst (snd (evaluate_current_session f now eng cat dur))) =
       (case f of None \<Rightarrow> last_modified_time eng
        | Some (mtime, content) \<Rightarrow> max mtime (last_modified_time eng))
   \<and> removeAll PrintRulesModified (snd (snd (evaluate_current_session f now eng cat dur))) =
       (case f of None \<Rightarrow> [PrintRulesNotFound]
        | Some (mtime, content) \<Rightarrow>
            (case content of NotJson \<Rightarrow> [PrintRulesInvalid] | _ \<Rightarrow> []))"
proof -
  have ev: "snd (snd (evaluate_current_session f now eng cat dur)) =
              snd (snd (load_rules f eng))"
    by (simp add: evaluate_load split: sum.splits prod.splits)
  have lm: "last_modified_time (fst (snd (evaluate_current_session f now eng cat dur))) =
              last_modified_time (fst (snd (load_rules f eng)))"
    by (simp add: evaluate_load split: sum.splits prod.splits)
  have 1: "fst (evaluate_current_session f now eng cat dur) =
     (case current_rules f of
        Inl err \<Rightarrow> Inl err
      | Inr rs \<Rightarrow>
          (case scan_rules rs (last_nudged_time eng) now cat dur of
             Inl err \<Rightarrow> Inl err
           | Inr (r, lnt) \<Rightarrow> Inr r))"
    by (simp add: evaluate_load split: sum.splits prod.splits)
  have 2: "rules (fst (snd (evaluate_current_session f now eng cat dur))) =
       (case current_rules f of Inl err \<Rightarrow> rules eng | Inr rs \<Rightarrow> rs)"
    by (simp add: evaluate_load load_rules_engine split: sum.splits prod.splits)
  have 3: "last_nudged_time (fst (snd (evaluate_current_session f now eng cat dur))) =
       (case current_rules f of
          Inl err \<Rightarrow> last_nudged_time eng
        | Inr rs \<Rightarrow>
            (case scan_rules rs (last_nudged_time eng) now cat dur of
               Inl err \<Rightarrow> last_nudged_time eng
             | Inr (r, lnt) \<Rightarrow> lnt))"
    by (simp add: evaluate_load load_rules_engine split: sum.splits prod.splits)
  show ?thesis
    unfolding ev lm using 1 2 3 load_rules_engine(3) [of f eng] load_rules_events [of f eng]
    by (intro conjI)
qed

theorem evaluate_rereads_file_witness:
  "fst (evaluate_current_session
          (Some (5, Json (JObj [''rules'' \<mapsto> JArr [JObj [''category'' \<mapsto> JStr ''Work'',
                                                     ''duration_seconds'' \<mapsto> JNum 5,
                                                     ''action_name'' \<mapsto> JStr ''stand_up'']]])))
          100
          \<lparr> rules = [(JStr ''Work'', JNum 50, JStr ''stand_up'')], last_nudged_time = Map.empty,
            last_modified_time = 7 \<rparr> (JStr ''Work'') 6)
     = Inr (Some (JStr ''stand_up'', JStr ''Work'', 6))
   \<and> last_modified_time (fst (snd (evaluate_current_session
          (Some (5, Json (JObj [''rules'' \<mapsto> JArr [JObj [''category'' \<mapsto> JStr ''Work'',
                                                     ''duration_seconds'' \<mapsto> JNum 5,
                                                     ''action_name'' \<mapsto> JStr ''stand_up'']]])))
          100
          \<lparr> rules = [(JStr ''Work'', JNum 50, JStr ''stand_up'')], last_nudged_time = Map.empty,
            last_modified_time = 7 \<rparr> (JStr ''Work'') 6))) = 7"
  using evaluate_rereads_file
      [of "Some (5, Json (JObj [''rules'' \<mapsto> JArr [JObj [''category'' \<mapsto> JStr ''Work'',
                                                     ''duration_seconds'' \<mapsto> JNum 5,
                                                     ''action_name'' \<mapsto> JStr ''stand_up'']]]))"
          100
          "\<lparr> rules = [(JStr ''Work'', JNum 50, JStr ''stand_up'')],
             last_nudged_time = Map.empty, last_modified_time = 7 \<rparr>" "JStr ''Work''" 6]
  by (simp add: current_rules_def parse_rules_def parse_rule_def py_int_def)

text \<open>
  Claim C10 as stated fails for two contents of the file: JSON without the \<^verbatim>\<open>rules\<close>
  key, such as \<^verbatim>\<open>{}\<close>, and bytes that cannot be decoded as text. The call then uses
  neither the file's contents nor the built-in defaults: it raises, and the engine keeps
  the rules it had. Here the rule it keeps would have fired, and the defaults would not.
\<close>

theorem reread_raises_counterexample:
  "evaluate_current_session (Some (5, Json (JObj Map.empty))) 100
      \<lparr> rules = [(JStr ''Work'', JNum 5, JStr ''stand_up'')], last_nudged_time = Map.empty,
        last_modified_time = 7 \<rparr> (JStr ''Work'') 6
     = (Inl KeyError,
        \<lparr> rules = [(JStr ''Work'', JNum 5, JStr ''stand_up'')], last_nudged_time = Map.empty,
          last_modified_time = 7 \<rparr>, [])
   \<and> evaluate_current_session (Some (5, Unreadable)) 100
      \<lparr> rules = [(JStr ''Work'', JNum 5, JStr ''stand_up'')], last_nudged_time = Map.empty,
        last_modified_time = 7 \<rparr> (JStr ''Work'') 6
     = (Inl ReadError,
        \<lparr> rules = [(JStr ''Work'', JNum 5, JStr ''stand_up'')], last_nudged_time = Map.empty,
          last_modified_time = 7 \<rparr>, [])
   \<and> scan_rules [(JStr ''Work'', JNum 5, JStr ''stand_up'')] Map.empty 100 (JStr ''Work'') 6
        = Inr (Some (JStr ''stand_up'', JStr ''Work'', 6), [JStr ''stand_up'' \<mapsto> 100])
   \<and> scan_rules DEFAULT_RULES Map.empty 100 (JStr ''Work'') 6 = Inr (None, Map.empty)"
  by (simp add: evaluate_current_session_def load_rules_def parse_rules_def DEFAULT_RULES_def
        py_int_def)

section \<open>The classification cache (\<^verbatim>\<open>AIAgent.categorize_app\<close>)\<close>

lemma categorize_app_hit:
  "category_cache a = JObj m \<Longrightarrow> m (cache_key d) = Some v \<Longrightarrow>
   categorize_app reply a d = (Inr v, a, [])"
  by (simp add: categorize_app_def cache_contains_def cache_get_def)

lemma categorize_app_miss:
  "category_cache a = JObj m \<Longrightarrow> m (cache_key d) = None \<Longrightarrow>
   categorize_app reply a d =
     (let c = (case reply of Inr r \<Rightarrow> r | Inl err \<Rightarrow> ''Other'');
          c' = (if c \<in> valid_categories then c else ''Other'')
      in (Inr (JStr c'),
          \<lparr> category_cache = JObj (m(cache_key d \<mapsto> JStr c')),
            cache_store = CacheJson (JObj (m(cache_key d \<mapsto> JStr c'))) \<rparr>,
          [PrintCategorizing (cache_key d), QueryCategory (categorize_prompt d), WriteCache]))"
  by (cases a)
     (simp add: categorize_app_def cache_contains_def cache_set_def save_cache_def Let_def)

lemma categorize_app_other:
  assumes "\<forall>m. category_cache a \<noteq> JObj m"
  shows "\<exists>err. fst (categorize_app reply a d) = Inl err"
proof (cases "category_cache a")
  case JNull
  then show ?thesis by (simp add: categorize_app_def cache_contains_def)
next
  case (JNum x)
  then show ?thesis by (simp add: categorize_app_def cache_contains_def)
next
  case (JStr s)
  then show ?thesis
    by (cases "contains s (cache_key d)")
       (simp_all add: categorize_app_def cache_contains_def cache_get_def cache_set_def Let_def)
next
  case (JArr xs)
  then show ?thesis
    by (cases "JStr (cache_key d) \<in> set xs")
       (simp_all add: categorize_app_def cache_contains_def cache_get_def cache_set_def Let_def)
next
  case (JObj m)
  with assms show ?thesis by simp
qed

lemma categorize_app_error:
  "fst (categorize_app reply a d) = Inl err \<Longrightarrow> fst (snd (categorize_app reply a d)) = a"
  by (auto simp: categorize_app_def Let_def split: sum.splits bool.splits if_splits)

lemma categorize_app_keeps:
  assumes "category_cache a = JObj m"
  shows "\<exists>m'. category_cache (fst (snd (categorize_app reply a d))) = JObj m' \<and>
              (\<forall>k v. m k = Some v \<longrightarrow> m' k = Some v)"
proof (cases "m (cache_key d)")
  case None
  with assms show ?thesis by (auto simp: categorize_app_miss Let_def)
next
  case (Some v)
  with assms show ?thesis by (simp add: categorize_app_hit)
qed

lemma categorize_all_keeps:
  "category_cache a = JObj m \<Longrightarrow> m k = Some v \<Longrightarrow>
   \<exists>m'. category_cache (categorize_all a calls) = JObj m' \<and> m' k = Some v"
proof (induction calls arbitrary: a m)
  case Nil
  then show ?case by simp
next
  case (Cons c calls)
  obtain reply d where c: "c = (reply, d)" by (cases c) auto
  from categorize_app_keeps [OF Cons.prems(1), of reply d] Cons.prems(2)
  obtain m1 where "category_cache (fst (snd (categorize_app reply a d))) = JObj m1"
    and "m1 k = Some v" by blast
  then show ?case unfolding c by (simp add: Cons.IH)
qed

lemma Other_valid: "''Other'' \<in> valid_categories"
  by (simp add: valid_categories_def)

text \<open>
  Claim C2, as the code has it. Let the in-memory cache be a dictionary. If the cache key
  is present, \<^verbatim>\<open>categorize_app\<close> returns the cached value, calls no classifier and writes
  nothing (the agent is unchanged and nothing is done). If the key is absent and the
  classifier fails, the call returns \<open>Other\<close> and stores it under the key; after any further
  calls of \<^verbatim>\<open>categorize_app\<close>, whatever they ask and whatever the classifier answers, a
  call for that key returns \<open>Other\<close>, again without a classifier call or a write.
\<close>

theorem cache_hit_and_idempotent_fallback:
  assumes "category_cache a = JObj m"
  shows "(\<forall>v. m (cache_key d) = Some v \<longrightarrow> categorize_app reply a d = (Inr v, a, []))
   \<and> (m (cache_key d) = None \<longrightarrow>
        fst (categorize_app (Inl err) a d) = Inr (JStr ''Other'')
        \<and> cache_get (category_cache (fst (snd (categorize_app (Inl err) a d)))) (cache_key d)
            = Inr (JStr ''Other'')
        \<and> categorize_app reply (categorize_all (fst (snd (categorize_app (Inl err) a d))) calls) d
            = (Inr (JStr ''Other''),
               categorize_all (fst (snd (categorize_app (Inl err) a d))) calls, []))"
proof (intro conjI allI impI)
  fix v
  assume "m (cache_key d) = Some v"
  with assms show "categorize_app reply a d = (Inr v, a, [])" by (rule categorize_app_hit)
next
  assume miss: "m (cache_key d) = None"
  show "fst (categorize_app (Inl err) a d) = Inr (JStr ''Other'')"
    using assms miss by (simp add: categorize_app_miss Other_valid Let_def)
  have s: "category_cache (fst (snd (categorize_app (Inl err) a d))) =
             JObj (m(cache_key d \<mapsto> JStr ''Other''))"
    using assms miss by (simp add: categorize_app_miss Other_valid Let_def)
  then show "cache_get (category_cache (fst (snd (categorize_app (Inl err) a d)))) (cache_key d)
            = Inr (JStr ''Other'')"
    by (simp add: cache_get_def)
  from categorize_all_keeps [OF s, of "cache_key d" "JStr ''Other''" calls]
  obtain m' where
    "category_cache (categorize_all (fst (snd (categorize_app (Inl err) a d))) calls) = JObj m'"
    and "m' (cache_key d) = Some (JStr ''Other'')"
    by auto
  then show "categorize_app reply (categorize_all (fst (snd (categorize_app (Inl err) a d))) calls) d
            = (Inr (JStr ''Other''),
               categorize_all (fst (snd (categorize_app (Inl err) a d))) calls, [])"
    by (rule categorize_app_hit)
qed

theorem cache_hit_and_idempotent_fallback_witness:
  "categorize_app (Inr ''Gaming'')
       \<lparr> category_cache = JObj [''Code'' \<mapsto> JStr ''Work''],
         cache_store = CacheJson (JObj [''Code'' \<mapsto> JStr ''Work'']) \<rparr> (AppStr ''Code'')
     = (Inr (JStr ''Work''),
        \<lparr> category_cache = JObj [''Code'' \<mapsto> JStr ''Work''],
          cache_store = CacheJson (JObj [''Code'' \<mapsto> JStr ''Work'']) \<rparr>, [])
   \<and> categorize_app (Inl ClassifierError)
       \<lparr> category_cache = JObj Map.empty, cache_store = CacheMissing \<rparr> (AppStr ''Code'')
     = (Inr (JStr ''Other''),
        \<lparr> category_cache = JObj [''Code'' \<mapsto> JStr ''Other''],
          cache_store = CacheJson (JObj [''Code'' \<mapsto> JStr ''Other'']) \<rparr>,
        [PrintCategorizing ''Code'', QueryCategory (categorize_prompt (AppStr ''Code'')),
         WriteCache])
   \<and> categorize_app (Inr ''Work'')
        (categorize_all
           \<lparr> category_cache = JObj [''Code'' \<mapsto> JStr ''Other''],
             cache_store = CacheJson (JObj [''Code'' \<mapsto> JStr ''Other'']) \<rparr>
           [(Inr ''Communication'', AppStr ''Slack'')])
        (AppStr ''Code'')
     = (Inr (JStr ''Other''),
        categorize_all
           \<lparr> category_cache = JObj [''Code'' \<mapsto> JStr ''Other''],
             cache_store = CacheJson (JObj [''Code'' \<mapsto> JStr ''Other'']) \<rparr>
           [(Inr ''Communication'', AppStr ''Slack'')], [])"
proof -
  let ?hit = "\<lparr> category_cache = JObj [''Code'' \<mapsto> JStr ''Work''],
                cache_store = CacheJson (JObj [''Code'' \<mapsto> JStr ''Work'']) \<rparr>"
  let ?new = "\<lparr> category_cache = JObj Map.empty, cache_store = CacheMissing \<rparr>"
  have k: "cache_key (AppStr ''Code'') = ''Code''" by (simp add: cache_key_def)
  have f: "categorize_app (Inl ClassifierError) ?new (AppStr ''Code'')
     = (Inr (JStr ''Other''),
        \<lparr> category_cache = JObj [''Code'' \<mapsto> JStr ''Other''],
          cache_store = CacheJson (JObj [''Code'' \<mapsto> JStr ''Other'']) \<rparr>,
        [PrintCategorizing ''Code'', QueryCategory (categorize_prompt (AppStr ''Code'')),
         WriteCache])"
    by (simp add: categorize_app_def cache_contains_def cache_set_def save_cache_def k
          valid_categories_def Let_def)
  have 1: "categorize_app (Inr ''Gaming'') ?hit (AppStr ''Code'') = (Inr (JStr ''Work''), ?hit, [])"
    using cache_hit_and_idempotent_fallback
            [of ?hit "[''Code'' \<mapsto> JStr ''Work'']" "AppStr ''Code''" "Inr ''Gaming''"
                ClassifierError "[]"]
    by (simp add: k)
  have 2: "categorize_app (Inr ''Work'')
        (categorize_all (fst (snd (categorize_app (Inl ClassifierError) ?new (AppStr ''Code''))))
           [(Inr ''Communication'', AppStr ''Slack'')])
        (AppStr ''Code'')
     = (Inr (JStr ''Other''),
        categorize_all (fst (snd (categorize_app (Inl ClassifierError) ?new (AppStr ''Code''))))
           [(Inr ''Communication'', AppStr ''Slack'')], [])"
    using cache_hit_and_idempotent_fallback
            [of ?new Map.empty "AppStr ''Code''" "Inr ''Work''" ClassifierError
                "[(Inr ''Communication'', AppStr ''Slack'')]"]
    by (simp add: k)
  from 1 2 [unfolded f] f show ?thesis by simp
qed

text \<open>
  Claim C2 as stated fails when the cache file holds valid JSON that is not an object:
  \<^verbatim>\<open>_load_cache\<close> returns it as it is. With a cache that is the empty list, a failed
  classification computes \<open>Other\<close>, but the store \<^verbatim>\<open>self.category_cache[cache_key] = category\<close>
  raises \<^verbatim>\<open>TypeError\<close>: nothing is stored, and the next call for the same key asks the
  classifier again. With the list \<^verbatim>\<open>["Code"]\<close> the key is present in the cache, and the
  call raises \<^verbatim>\<open>TypeError\<close> at the lookup instead of returning a value.
\<close>

theorem list_cache_counterexample:
  "AIAgent_init (CacheJson (JArr [])) = Inr list_cache
   \<and> categorize_app (Inl ClassifierError) list_cache (AppStr ''Code'')
       = (Inl TypeError, list_cache,
          [PrintCategorizing ''Code'', QueryCategory (categorize_prompt (AppStr ''Code''))])
   \<and> categorize_app (Inr ''Work'') list_cache (AppStr ''Code'')
       = (Inl TypeError, list_cache,
          [PrintCategorizing ''Code'', QueryCategory (categorize_prompt (AppStr ''Code''))])
   \<and> AIAgent_init (CacheJson (JArr [JStr ''Code''])) =
       Inr \<lparr> category_cache = JArr [JStr ''Code''],
             cache_store = CacheJson (JArr [JStr ''Code'']) \<rparr>
   \<and> categorize_app (Inr ''Work'')
        \<lparr> category_cache = JArr [JStr ''Code''], cache_store = CacheJson (JArr [JStr ''Code'']) \<rparr>
        (AppStr ''Code'')
       = (Inl TypeError,
          \<lparr> category_cache = JArr [JStr ''Code''],
            cache_store = CacheJson (JArr [JStr ''Code'']) \<rparr>, [])"
  by (simp add: AIAgent_init_def load_cache_def list_cache_def categorize_app_def
        cache_contains_def cache_get_def cache_set_def cache_key_def Let_def)

text \<open>
  Claim C3 as stated fails for a value served from the cache loaded from disk: the hit
  path returns what the file holds, unchecked, be it a string outside the closed set or
  no string at all.
\<close>

theorem cached_value_counterexample:
  "AIAgent_init (CacheJson (JObj [''Code'' \<mapsto> JStr ''work''])) =
     Inr \<lparr> category_cache = JObj [''Code'' \<mapsto> JStr ''work''],
           cache_store = CacheJson (JObj [''Code'' \<mapsto> JStr ''work'']) \<rparr>
   \<and> fst (categorize_app (Inr ''Work'')
          \<lparr> category_cache = JObj [''Code'' \<mapsto> JStr ''work''],
            cache_store = CacheJson (JObj [''Code'' \<mapsto> JStr ''work'']) \<rparr>
          (AppStr ''Code''))
     = Inr (JStr ''work'')
   \<and> ''work'' \<notin> valid_categories
   \<and> fst (categorize_app (Inr ''Work'')
          \<lparr> category_cache = JObj [''Code'' \<mapsto> JNum 5],
            cache_store = CacheJson (JObj [''Code'' \<mapsto> JNum 5]) \<rparr>
          (AppStr ''Code''))
     = Inr (JNum 5)"
  by (simp add: categorize_app_def AIAgent_init_def load_cache_def cache_key_def
        cache_contains_def cache_get_def valid_categories_def Let_def)

text \<open>
  Claim C3, as the code has it. \<^verbatim>\<open>categorize_app\<close> returns a value exactly when the
  in-memory cache is a dictionary, and the returned value is then the one the cache holds
  under the key afterwards. A fresh classification (cache miss) always returns a member of
  the closed set, any reply outside it (for example \<open>work\<close> or \<open>WORK \<close>) having been
  replaced by \<open>Other\<close>. A value served from the cache is returned as stored: it is in the
  closed set whenever every value of the cache is, and \<^verbatim>\<open>categorize_app\<close> keeps the
  cache that way.
\<close>

theorem category_closure:
  "(\<forall>v. fst (categorize_app reply a d) = Inr v \<longrightarrow> (\<exists>m. category_cache a = JObj m))
   \<and> (\<forall>m. category_cache a = JObj m \<longrightarrow>
        (\<exists>v m'. fst (categorize_app reply a d) = Inr v
           \<and> category_cache (fst (snd (categorize_app reply a d))) = JObj m'
           \<and> m' (cache_key d) = Some v
           \<and> (m (cache_key d) = None \<longrightarrow>
                v \<in> valid_values
                \<and> (\<forall>r. reply = Inr r \<and> r \<notin> valid_categories \<longrightarrow> v = JStr ''Other''))
           \<and> (ran m \<subseteq> valid_values \<longrightarrow> v \<in> valid_values \<and> ran m' \<subseteq> valid_values)))"
proof (intro conjI allI impI)
  fix v
  assume r: "fst (categorize_app reply a d) = Inr v"
  show "\<exists>m. category_cache a = JObj m"
  proof (rule ccontr)
    assume "\<not> (\<exists>m. category_cache a = JObj m)"
    then have "\<forall>m. category_cache a \<noteq> JObj m" by simp
    from categorize_app_other [OF this, of reply d] r show False by simp
  qed
next
  fix m
  assume c: "category_cache a = JObj m"
  show "\<exists>v m'. fst (categorize_app reply a d) = Inr v
           \<and> category_cache (fst (snd (categorize_app reply a d))) = JObj m'
           \<and> m' (cache_key d) = Some v
           \<and> (m (cache_key d) = None \<longrightarrow>
                v \<in> valid_values
                \<and> (\<forall>r. reply = Inr r \<and> r \<notin> valid_categories \<longrightarrow> v = JStr ''Other''))
           \<and> (ran m \<subseteq> valid_values \<longrightarrow> v \<in> valid_values \<and> ran m' \<subseteq> valid_values)"
  proof (cases "m (cache_key d)")
    case None
    define c' where "c' = (if (case reply of Inr r \<Rightarrow> r | Inl err \<Rightarrow> ''Other'') \<in> valid_categories
                           then (case reply of Inr r \<Rightarrow> r | Inl err \<Rightarrow> ''Other'') else ''Other'')"
    have v: "c' \<in> valid_categories" by (simp add: c'_def Other_valid)
    have o: "\<forall>r. reply = Inr r \<and> r \<notin> valid_categories \<longrightarrow> c' = ''Other''"
      by (simp add: c'_def)
    have e: "categorize_app reply a d =
               (Inr (JStr c'),
                \<lparr> category_cache = JObj (m(cache_key d \<mapsto> JStr c')),
                  cache_store = CacheJson (JObj (m(cache_key d \<mapsto> JStr c'))) \<rparr>,
                [PrintCategorizing (cache_key d), QueryCategory (categorize_prompt d), WriteCache])"
      using categorize_app_miss [OF c None, of reply] by (simp add: Let_def c'_def)
    have rn: "ran m \<subseteq> valid_values \<longrightarrow> ran (m(cache_key d \<mapsto> JStr c')) \<subseteq> valid_values"
      using v None by (auto simp: ran_def valid_values_def)
    show ?thesis
      by (rule exI [of _ "JStr c'"], rule exI [of _ "m(cache_key d \<mapsto> JStr c')"])
         (use v o rn in \<open>simp add: e valid_values_def\<close>)
  next
    case (Some v)
    have e: "categorize_app reply a d = (Inr v, a, [])"
      using c Some by (rule categorize_app_hit)
    have "ran m \<subseteq> valid_values \<longrightarrow> v \<in> valid_values"
      using Some by (auto simp: ran_def)
    then show ?thesis
      by (intro exI [of _ v] exI [of _ m]) (simp add: e c Some)
  qed
qed

theorem category_closure_witness:
  "fst (categorize_app (Inr ''work'')
          \<lparr> category_cache = JObj Map.empty, cache_store = CacheMissing \<rparr> (AppStr ''Code''))
     = Inr (JStr ''Other'')
   \<and> fst (categorize_app (Inr ''WORK '')
          \<lparr> category_cache = JObj Map.empty, cache_store = CacheNotJson \<rparr> (AppStr ''Code''))
     = Inr (JStr ''Other'')
   \<and> ran [''Code'' \<mapsto> JStr ''Work''] \<subseteq> valid_values
   \<and> fst (categorize_app (Inr ''work'')
          \<lparr> category_cache = JObj [''Code'' \<mapsto> JStr ''Work''],
            cache_store = CacheJson (JObj [''Code'' \<mapsto> JStr ''Work'']) \<rparr> (AppStr ''Code''))
       \<in> Inr ` valid_values"
proof -
  let ?a = "\<lparr> category_cache = JObj Map.empty, cache_store = CacheMissing \<rparr>"
  let ?b = "\<lparr> category_cache = JObj Map.empty, cache_store = CacheNotJson \<rparr>"
  let ?c = "\<lparr> category_cache = JObj [''Code'' \<mapsto> JStr ''Work''],
              cache_store = CacheJson (JObj [''Code'' \<mapsto> JStr ''Work'']) \<rparr>"
  have w: "''work'' \<notin> valid_categories" "''WORK '' \<notin> valid_categories"
    by (simp_all add: valid_categories_def)
  have r: "ran [''Code'' \<mapsto> JStr ''Work''] \<subseteq> valid_values"
    by (simp add: valid_values_def valid_categories_def)
  from category_closure [of "Inr ''work''" ?a "AppStr ''Code''"] w
  have 1: "fst (categorize_app (Inr ''work'') ?a (AppStr ''Code'')) = Inr (JStr ''Other'')"
    by auto
  from category_closure [of "Inr ''WORK ''" ?b "AppStr ''Code''"] w
  have 2: "fst (categorize_app (Inr ''WORK '') ?b (AppStr ''Code'')) = Inr (JStr ''Other'')"
    by auto
  from category_closure [of "Inr ''work''" ?c "AppStr ''Code''"] r
  have 3: "fst (categorize_app (Inr ''work'') ?c (AppStr ''Code'')) \<in> Inr ` valid_values"
    by auto
  from 1 2 3 r show ?thesis by simp
qed

section \<open>The poll loop (\<^verbatim>\<open>BilgeApp.run\<close>)\<close>

subsection \<open>One pass\<close>

lemma evaluate_and_nudge_session:
  "data_manager (fst (evaluate_and_nudge e s)) = data_manager s"
  "ai_agent (fst (evaluate_and_nudge e s)) = ai_agent s"
  "current_session_start_time (fst (evaluate_and_nudge e s)) = current_session_start_time s"
  "current_session_category (fst (evaluate_and_nudge e s)) = current_session_category s"
  "current_session_app_name (fst (evaluate_and_nudge e s)) = current_session_app_name s"
  "last_app_data (fst (evaluate_and_nudge e s)) = last_app_data s"
  by (simp_all add: evaluate_and_nudge_def Let_def split: prod.splits sum.splits option.splits)





lemma tick_idle:
  "\<not> activity e \<Longrightarrow> fst (tick e s) = s \<and> fst (snd (tick e s)) = []"
  by (auto simp: activity_def tick_def split: sum.splits option.splits)

lemma tick_error:
  assumes "observed e = Inr (Some d)" "truthy_app (Some d)"
    and "categorize_app (category_reply e) (ai_agent s) (AppStr (fst (get_app_info d))) =
           (Inl err, a', evc)"
  shows "tick e s = (s \<lparr> ai_agent := a' \<rparr>, evc, Some err)"
  using assms by (cases "get_app_info d") (simp add: tick_def)

lemma tick_activity:
  assumes "observed e = Inr (Some d)" "truthy_app (Some d)"
    and "categorize_app (category_reply e) (ai_agent s) (AppStr (fst (get_app_info d))) =
           (Inr c, a', evc)"
  shows "tick e s =
     (let s1 = s \<lparr> ai_agent := a' \<rparr>;
          b = (if session_boundary s d c
               then switch_session e s1 d c (snd (get_app_info d))
               else (s1, [], None))
      in case snd (snd b) of
           Some err \<Rightarrow> (fst b, evc @ fst (snd b), Some err)
         | None \<Rightarrow>
             (let t = evaluate_and_nudge e (fst b)
              in (fst t, evc @ fst (snd b) @ fst (snd t), snd (snd t))))"
  using assms
  by (cases "get_app_info d")
     (simp add: tick_def Let_def session_boundary_def split: prod.splits option.splits)

lemma switch_session_open:
  assumes "current_session_app_name s = None \<or> current_session_app_name s = Some []"
  shows "switch_session e s d c l =
     (s \<lparr> current_session_start_time := now_start e,
           current_session_category := c,
           current_session_app_name := Some l,
           last_app_data := Some d,
           nudged_for_session := False \<rparr>,
      [PrintSessionStarted l c], None)"
  using assms by (auto simp: switch_session_def)

lemma switch_session_saved:
  assumes "current_session_app_name s = Some name" "name \<noteq> []"
    and "save_session (round_double e) (data_manager s) name (current_session_category s)
           (current_session_start_time s) (now_end e) = Inr dm"
  shows "switch_session e s d c l =
     (s \<lparr> data_manager := dm,
           current_session_start_time := now_start e,
           current_session_category := c,
           current_session_app_name := Some l,
           last_app_data := Some d,
           nudged_for_session := False \<rparr>,
      [PrintSessionEnded name (current_session_category s), WriteLog, PrintSessionStarted l c],
      None)"
  using assms by (simp add: switch_session_def)

lemma switch_session_failed:
  assumes "current_session_app_name s = Some name" "name \<noteq> []"
    and "save_session (round_double e) (data_manager s) name (current_session_category s)
           (current_session_start_time s) (now_end e) = Inl x"
  shows "switch_session e s d c l =
     (s, [PrintSessionEnded name (current_session_category s)], Some x)"
  using assms by (simp add: switch_session_def)

lemma switch_session_cases:
  obtains
    (Open) "current_session_app_name s = None \<or> current_session_app_name s = Some []"
  | (Saved) name dm where "current_session_app_name s = Some name" "name \<noteq> []"
      "save_session (round_double e) (data_manager s) name (current_session_category s)
           (current_session_start_time s) (now_end e) = Inr dm"
  | (Failed) name x where "current_session_app_name s = Some name" "name \<noteq> []"
      "save_session (round_double e) (data_manager s) name (current_session_category s)
           (current_session_start_time s) (now_end e) = Inl x"
proof (cases "current_session_app_name s")
  case None
  then show ?thesis using Open by simp
next
  case (Some name)
  show ?thesis
  proof (cases "name = []")
    case True
    with Some show ?thesis using Open by simp
  next
    case False
    show ?thesis
    proof (cases "save_session (round_double e) (data_manager s) name
                    (current_session_category s) (current_session_start_time s) (now_end e)")
      case (Inl x)
      with Some False show ?thesis using Failed by simp
    next
      case (Inr dm)
      with Some False show ?thesis using Saved by simp
    qed
  qed
qed

lemma switch_session_ok_fields:
  assumes "snd (snd (switch_session e s d c l)) = None"
  shows "current_session_start_time (fst (switch_session e s d c l)) = now_start e"
    "current_session_category (fst (switch_session e s d c l)) = c"
    "current_session_app_name (fst (switch_session e s d c l)) = Some l"
    "last_app_data (fst (switch_session e s d c l)) = Some d"
    "nudged_for_session (fst (switch_session e s d c l)) = False"
    "PrintSessionStarted l c \<in> set (fst (snd (switch_session e s d c l)))"
  using assms
  by (cases rule: switch_session_cases [where s = s and e = e];
      simp add: switch_session_open switch_session_saved switch_session_failed)+

lemma switch_session_others:
  "ai_agent (fst (switch_session e s d c l)) = ai_agent s"
  "rules_engine (fst (switch_session e s d c l)) = rules_engine s"
  by (cases rule: switch_session_cases [where s = s and e = e];
      simp add: switch_session_open switch_session_saved switch_session_failed)+

lemma label_nonempty: "truthy_app (Some d) \<Longrightarrow> snd (get_app_info d) \<noteq> []"
  by (cases d) (simp_all add: truthy_app_def get_app_info_def)

text \<open>The ways a pass that observes an activity can go.\<close>

lemma tick_cases:
  assumes obs: "observed e = Inr (Some d)" and truthy: "truthy_app (Some d)"
  obtains
    (Unclassified) err evc where
      "categorize_app (category_reply e) (ai_agent s) (AppStr (fst (get_app_info d))) =
         (Inl err, ai_agent s, evc)"
      "tick e s = (s, evc, Some err)"
  | (Unsaved) c a' evc x where
      "categorize_app (category_reply e) (ai_agent s) (AppStr (fst (get_app_info d))) =
         (Inr c, a', evc)"
      "session_boundary s d c"
      "switch_session e (s \<lparr> ai_agent := a' \<rparr>) d c (snd (get_app_info d)) =
         (s \<lparr> ai_agent := a' \<rparr>, [PrintSessionEnded (the (current_session_app_name s))
                                    (current_session_category s)], Some x)"
      "tick e s = (s \<lparr> ai_agent := a' \<rparr>,
                   evc @ [PrintSessionEnded (the (current_session_app_name s))
                            (current_session_category s)], Some x)"
  | (Boundary) c a' evc s2 evb where
      "categorize_app (category_reply e) (ai_agent s) (AppStr (fst (get_app_info d))) =
         (Inr c, a', evc)"
      "session_boundary s d c"
      "switch_session e (s \<lparr> ai_agent := a' \<rparr>) d c (snd (get_app_info d)) = (s2, evb, None)"
      "tick e s = (fst (evaluate_and_nudge e s2), evc @ evb @ fst (snd (evaluate_and_nudge e s2)),
                   snd (snd (evaluate_and_nudge e s2)))"
  | (Same) c a' evc where
      "categorize_app (category_reply e) (ai_agent s) (AppStr (fst (get_app_info d))) =
         (Inr c, a', evc)"
      "\<not> session_boundary s d c"
      "tick e s = (fst (evaluate_and_nudge e (s \<lparr> ai_agent := a' \<rparr>)),
                   evc @ fst (snd (evaluate_and_nudge e (s \<lparr> ai_agent := a' \<rparr>))),
                   snd (snd (evaluate_and_nudge e (s \<lparr> ai_agent := a' \<rparr>))))"
proof -
  obtain r a' evc where cat:
    "categorize_app (category_reply e) (ai_agent s) (AppStr (fst (get_app_info d))) = (r, a', evc)"
    by (rule prod_cases3)
  show ?thesis
  proof (cases r)
    case (Inl err)
    from categorize_app_error [of "category_reply e" "ai_agent s"
        "AppStr (fst (get_app_info d))" err] cat Inl
    have a: "a' = ai_agent s" by simp
    from tick_error [OF obs truthy cat [unfolded Inl]] a
    have "tick e s = (s, evc, Some err)" by simp
    with cat Inl a show ?thesis using Unclassified by simp
  next
    case (Inr c)
    note t = tick_activity [OF obs truthy cat [unfolded Inr]]
    show ?thesis
    proof (cases "session_boundary s d c")
      case False
      with t have "tick e s = (fst (evaluate_and_nudge e (s \<lparr> ai_agent := a' \<rparr>)),
                   evc @ fst (snd (evaluate_and_nudge e (s \<lparr> ai_agent := a' \<rparr>))),
                   snd (snd (evaluate_and_nudge e (s \<lparr> ai_agent := a' \<rparr>))))"
        by (simp add: Let_def)
      with cat Inr False show ?thesis using Same by simp
    next
      case True
      obtain s2 evb errb where sw:
        "switch_session e (s \<lparr> ai_agent := a' \<rparr>) d c (snd (get_app_info d)) = (s2, evb, errb)"
        by (rule prod_cases3)
      show ?thesis
      proof (cases errb)
        case None
        with t True sw have "tick e s =
            (fst (evaluate_and_nudge e s2), evc @ evb @ fst (snd (evaluate_and_nudge e s2)),
             snd (snd (evaluate_and_nudge e s2)))"
          by (simp add: Let_def)
        with cat Inr True sw None show ?thesis using Boundary by simp
      next
        case (Some x)
        have sw': "switch_session e (s \<lparr> ai_agent := a' \<rparr>) d c (snd (get_app_info d)) =
                     (s \<lparr> ai_agent := a' \<rparr>,
                      [PrintSessionEnded (the (current_session_app_name s))
                         (current_session_category s)], Some x)"
          using sw Some
          by (cases rule: switch_session_cases [where s = "s \<lparr> ai_agent := a' \<rparr>" and e = e])
             (auto simp: switch_session_open switch_session_saved switch_session_failed)
        with t True have "tick e s = (s \<lparr> ai_agent := a' \<rparr>,
                   evc @ [PrintSessionEnded (the (current_session_app_name s))
                            (current_session_category s)], Some x)"
          by (simp add: Let_def)
        with cat Inr True sw' show ?thesis using Unsaved by simp
      qed
    qed
  qed
qed

subsection \<open>The session invariant\<close>

lemma session_inv_agent: "session_inv (s \<lparr> ai_agent := a \<rparr>) = session_inv s"
  by (simp add: session_inv_def split: option.splits)

lemma tick_inv: "session_inv s \<Longrightarrow> session_inv (fst (tick e s))"
proof (cases "activity e")
  case False
  assume "session_inv s"
  with False show ?thesis by (simp add: tick_idle)
next
  case True
  assume inv: "session_inv s"
  from True obtain d where d: "observed e = Inr (Some d)" "truthy_app (Some d)"
    by (auto simp: activity_def truthy_app_def split: sum.splits option.splits)
  from d show ?thesis
  proof (cases rule: tick_cases [where s = s])
    case (Unclassified err evc)
    with inv show ?thesis by simp
  next
    case (Unsaved c a' evc x)
    with inv show ?thesis by (simp add: session_inv_agent)
  next
    case (Boundary c a' evc s2 evb)
    from switch_session_ok_fields [of e "s \<lparr> ai_agent := a' \<rparr>" d c "snd (get_app_info d)"]
      Boundary(3)
    have "current_session_app_name s2 = Some (snd (get_app_info d))" "last_app_data s2 = Some d"
      by simp_all
    with d Boundary(4) show ?thesis
      by (simp add: session_inv_def evaluate_and_nudge_session)
  next
    case (Same c a' evc)
    with inv show ?thesis
      by (simp add: session_inv_def evaluate_and_nudge_session split: option.splits)
  qed
qed

lemma init_inv: "BilgeApp_init lf cf kf t0 = Inr s0 \<Longrightarrow> session_inv s0"
  by (auto simp: BilgeApp_init_def session_inv_def split: sum.splits)

lemma iteration_running:
  "fst (iteration e s) = Running s' \<Longrightarrow> s' = fst (tick e s) \<and> \<not> sigint e"
  by (cases "tick e s")
     (auto simp: iteration_def split: prod.splits option.splits if_splits)

lemma run_Cons_running:
  "fst (iteration e s) = Running s1 \<Longrightarrow>
   run (e # es) s = (fst (run es s1), snd (iteration e s) @ snd (run es s1))"
  by (cases "iteration e s") (simp split: prod.splits)

lemma run_Cons_exited:
  "fst (iteration e s) = Exited st s1 \<Longrightarrow> run (e # es) s = iteration e s"
  by (cases "iteration e s") simp

lemma run_inv: "session_inv s \<Longrightarrow> fst (run es s) = Running s' \<Longrightarrow> session_inv s'"
proof (induction es arbitrary: s)
  case Nil
  then show ?case by simp
next
  case (Cons e es)
  show ?case
  proof (cases "fst (iteration e s)")
    case (Running s1)
    then have s1: "s1 = fst (tick e s)" by (simp add: iteration_running)
    with Cons.prems(1) have "session_inv s1" by (simp add: tick_inv)
    moreover from Cons.prems(2) [unfolded run_Cons_running [OF Running]]
    have "fst (run es s1) = Running s'" by simp
    ultimately show ?thesis by (rule Cons.IH)
  next
    case (Exited st s1)
    with Cons.prems(2) [unfolded run_Cons_exited [OF Exited]] show ?thesis
      by simp
  qed
qed


lemma inv_name_cases:
  assumes "session_inv s"
  shows "current_session_app_name s = None \<or>
         (\<exists>name. current_session_app_name s = Some name \<and> name \<noteq> [])"
  using assms
  by (cases "last_app_data s") (auto simp: session_inv_def dest: label_nonempty)

subsection \<open>The scenario, evaluated\<close>

lemma fresh_app_eq:
  "BilgeApp_init LogMissing None CacheMissing (clock_at 0 0) = Inr fresh_app"
  "fresh_app =
     \<lparr> data_manager = \<lparr> data = JArr [], log_store = LogMissing \<rparr>,
       rules_engine = \<lparr> rules = DEFAULT_RULES, last_nudged_time = Map.empty,
                        last_modified_time = 0 \<rparr>,
       ai_agent = \<lparr> category_cache = JObj Map.empty, cache_store = CacheMissing \<rparr>,
       current_session_start_time = clock_at 0 0,
       current_session_category = JNull,
       current_session_app_name = None,
       last_app_data = None,
       nudged_for_session = False \<rparr>"
  by (simp_all add: fresh_app_def BilgeApp_init_def RulesEngine_init_def load_rules_def
        DataManager_init_def load_data_def AIAgent_init_def load_cache_def)

lemmas tick_eval =
  tick_def truthy_app_def get_app_info_def categorize_app_def cache_key_def save_cache_def
  cache_contains_def cache_get_def cache_set_def
  valid_categories_def session_boundary_def switch_session_def evaluate_and_nudge_def
  evaluate_current_session_def load_rules_def parse_rules_def generate_nudge_def
  send_notification_def save_session_def save_data_def py_int_def Let_def

lemma tick_code:
  "tick code_env fresh_app =
     (in_code,
      [PrintCategorizing ''Code'', QueryCategory (categorize_prompt (AppStr ''Code'')),
       WriteCache, PrintSessionStarted ''Code'' (JStr ''Work''), EvaluateRules,
       PrintRulesNotFound],
      None)"
  by (simp add: fresh_app_eq(2) in_code_def code_env_def quiet_env_def clock_at_def tick_eval
        DEFAULT_RULES_def datetime_eval)

lemma tick_code_later:
  "tick code_later_env in_code =
     (nudged_code,
      [EvaluateRules, PrintRulesNotFound,
       PrintTriggered (JStr ''short_work_session'') (JStr ''Work'') 31,
       PrintGenerating (JStr ''Work'') 31, QueryNudge (JStr ''Work'') 31,
       Notify ''bilge'' ''Consider taking a break from your screen.''],
      None)"
  by (simp add: in_code_def nudged_code_def code_later_env_def code_env_def quiet_env_def
        clock_at_def tick_eval DEFAULT_RULES_def datetime_eval)

lemma tick_nudged: "tick code_later_env nudged_code = (nudged_code, [], None)"
  by (simp add: in_code_def nudged_code_def code_later_env_def code_env_def quiet_env_def
        clock_at_def tick_eval)

lemma no_sigint: "\<not> sigint code_env" "\<not> sigint code_later_env" "sigint broken_config_env"
  by (simp_all add: code_env_def code_later_env_def broken_config_env_def quiet_env_def)


lemma run_three:
  "run [code_env, code_later_env, code_later_env] fresh_app =
     (Running nudged_code,
      [PrintCategorizing ''Code'', QueryCategory (categorize_prompt (AppStr ''Code'')),
       WriteCache, PrintSessionStarted ''Code'' (JStr ''Work''), EvaluateRules,
       PrintRulesNotFound,
       EvaluateRules, PrintRulesNotFound,
       PrintTriggered (JStr ''short_work_session'') (JStr ''Work'') 31,
       PrintGenerating (JStr ''Work'') 31, QueryNudge (JStr ''Work'') 31,
       Notify ''bilge'' ''Consider taking a break from your screen.''])"
  by (simp add: iteration_def tick_code tick_code_later tick_nudged no_sigint)

lemma tick_github:
  "category_cache (ai_agent (fst (tick github_env fresh_app))) =
     JObj [''GitHub | https://github.com'' \<mapsto> JStr ''Browsing'']"
  "current_session_app_name (fst (tick github_env fresh_app)) = Some ''Google Chrome | GitHub''"
  by (simp_all add: fresh_app_eq(2) github_env_def quiet_env_def clock_at_def tick_eval
        DEFAULT_RULES_def py_str_def datetime_eval)

lemma tick_broken_config:
  "tick broken_config_env in_code =
     (in_code \<lparr> rules_engine :=
                  \<lparr> rules = DEFAULT_RULES, last_nudged_time = Map.empty,
                    last_modified_time = 1 \<rparr> \<rparr>,
      [EvaluateRules, PrintRulesModified], Some KeyError)"
  by (simp add: in_code_def broken_config_env_def code_env_def quiet_env_def clock_at_def
        tick_eval)

lemma tick_slack:
  "tick slack_env in_code =
     (in_code \<lparr> data_manager :=
                  \<lparr> data = JArr [session_entry (\<lambda>x. x) ''Code'' (JStr ''Work'') (clock_at 5 0)
                                    (clock_at 36 250000)],
                    log_store = LogJson (JArr [session_entry (\<lambda>x. x) ''Code'' (JStr ''Work'')
                                    (clock_at 5 0) (clock_at 36 250000)]) \<rparr>,
                ai_agent :=
                  \<lparr> category_cache = JObj [''Code'' \<mapsto> JStr ''Work'',
                                           ''Slack'' \<mapsto> JStr ''Communication''],
                    cache_store = CacheJson (JObj [''Code'' \<mapsto> JStr ''Work'',
                                           ''Slack'' \<mapsto> JStr ''Communication'']) \<rparr>,
                current_session_start_time := clock_at 36 250000,
                current_session_category := JStr ''Communication'',
                current_session_app_name := Some ''Slack'',
                last_app_data := Some (AppStr ''Slack'') \<rparr>,
      [PrintCategorizing ''Slack'', QueryCategory (categorize_prompt (AppStr ''Slack'')),
       WriteCache, PrintSessionEnded ''Code'' (JStr ''Work''), WriteLog,
       PrintSessionStarted ''Slack'' (JStr ''Communication''), EvaluateRules,
       PrintRulesNotFound],
      None)"
  by (simp add: in_code_def slack_env_def quiet_env_def tick_eval DEFAULT_RULES_def
        total_seconds_between_def)






subsection \<open>Session boundaries\<close>

lemma switch_session_result:
  assumes "current_session_app_name s = None \<or>
           (\<exists>name. current_session_app_name s = Some name \<and> name \<noteq> [])"
  shows "switch_session e s d c l =
     (case current_session_app_name s of
        None \<Rightarrow>
          (s \<lparr> current_session_start_time := now_start e,
                current_session_category := c,
                current_session_app_name := Some l,
                last_app_data := Some d,
                nudged_for_session := False \<rparr>,
           [PrintSessionStarted l c], None)
      | Some name \<Rightarrow>
          (case data (data_manager s) of
             JArr items \<Rightarrow>
               (s \<lparr> data_manager :=
                       \<lparr> data = JArr (items @ [session_entry (round_double e) name
                                  (current_session_category s) (current_session_start_time s)
                                  (now_end e)]),
                         log_store = LogJson (JArr (items @ [session_entry (round_double e) name
                                  (current_session_category s) (current_session_start_time s)
                                  (now_end e)])) \<rparr>,
                     current_session_start_time := now_start e,
                     current_session_category := c,
                     current_session_app_name := Some l,
                     last_app_data := Some d,
                     nudged_for_session := False \<rparr>,
                [PrintSessionEnded name (current_session_category s), WriteLog,
                 PrintSessionStarted l c],
                None)
           | _ \<Rightarrow> (s, [PrintSessionEnded name (current_session_category s)],
                   Some AttributeError)))"
proof (cases "current_session_app_name s")
  case None
  then show ?thesis by (simp add: switch_session_open)
next
  case (Some name)
  with assms have ne: "name \<noteq> []" by simp
  show ?thesis
  proof (cases "\<exists>items. data (data_manager s) = JArr items")
    case True
    then obtain items where i: "data (data_manager s) = JArr items" by blast
    from switch_session_saved [OF Some ne save_session_list [OF i]] Some i
    show ?thesis by simp
  next
    case False
    then have "\<forall>items. data (data_manager s) \<noteq> JArr items" by simp
    from switch_session_failed [OF Some ne save_session_other [OF this]] Some False
    show ?thesis by (cases "data (data_manager s)") simp_all
  qed
qed






subsection \<open>One nudge per session\<close>

lemma nudges_once_append:
  "nudges_once f (xs @ ys) = (nudges_once f xs \<and> nudges_once (flag_after f xs) ys)"
  by (induction f xs rule: nudges_once.induct) auto

lemma flag_after_append: "flag_after f (xs @ ys) = flag_after (flag_after f xs) ys"
  by (induction f xs rule: flag_after.induct) auto

lemma neutral_simps:
  "neutral []"
  "neutral (PrintCategorizing k # evs) = neutral evs"
  "neutral (QueryCategory p # evs) = neutral evs"
  "neutral (WriteCache # evs) = neutral evs"
  "neutral (PrintSessionEnded n c # evs) = neutral evs"
  "neutral (WriteLog # evs) = neutral evs"
  "neutral (PrintRulesModified # evs) = neutral evs"
  "neutral (PrintRulesNotFound # evs) = neutral evs"
  "neutral (PrintRulesInvalid # evs) = neutral evs"
  "neutral (PrintTriggered a c i # evs) = neutral evs"
  "neutral (PrintGenerating c i # evs) = neutral evs"
  "neutral (QueryNudge c i # evs) = neutral evs"
  "neutral (PrintNotifyFailed # evs) = neutral evs"
  "neutral (PrintExiting # evs) = neutral evs"
  "neutral (PrintError err # evs) = neutral evs"
  by (simp_all add: neutral_def)

lemma neutral_D: "neutral evs \<Longrightarrow> nudges_once f evs \<and> flag_after f evs = f"
  by (simp add: neutral_def)

lemma neutral_append: "neutral xs \<Longrightarrow> neutral ys \<Longrightarrow> neutral (xs @ ys)"
  by (simp add: neutral_def nudges_once_append flag_after_append)

lemma categorize_app_neutral: "neutral (snd (snd (categorize_app r a d)))"
  by (simp add: categorize_app_def Let_def neutral_simps split: sum.splits bool.splits)

lemma load_rules_neutral: "neutral (snd (snd (load_rules f eng)))"
  by (simp add: load_rules_def Let_def neutral_simps
      split: option.splits prod.splits config_content.splits)

lemma evaluate_neutral: "neutral (snd (snd (evaluate_current_session f now eng cat dur)))"
  using load_rules_neutral [of f eng]
  by (simp add: evaluate_load split: sum.splits prod.splits)

lemma switch_session_nudges:
  "nudges_once (nudged_for_session s) (fst (snd (switch_session e s d c l))) \<and>
   flag_after (nudged_for_session s) (fst (snd (switch_session e s d c l))) =
     nudged_for_session (fst (switch_session e s d c l))"
  by (cases rule: switch_session_cases [where s = s and e = e])
     (simp_all add: switch_session_open switch_session_saved switch_session_failed)

lemma evaluate_and_nudge_nudges:
  "nudges_once (nudged_for_session s) (fst (snd (evaluate_and_nudge e s))) \<and>
   flag_after (nudged_for_session s) (fst (snd (evaluate_and_nudge e s))) =
     nudged_for_session (fst (evaluate_and_nudge e s))"
proof (cases "nudged_for_session s")
  case True
  then show ?thesis by (simp add: evaluate_and_nudge_def)
next
  case False
  obtain x eng ev where r:
    "evaluate_current_session (config e) (time_now e) (rules_engine s)
       (current_session_category s)
       (total_seconds_between (round_double e) (now_duration e)
          (current_session_start_time s)) = (x, eng, ev)"
    by (rule prod_cases3)
  have "neutral ev"
    using evaluate_neutral [of "config e" "time_now e" "rules_engine s"
        "current_session_category s"
        "total_seconds_between (round_double e) (now_duration e)
           (current_session_start_time s)"] r
    by simp
  note nd = neutral_D [OF this]
  show ?thesis
  proof (cases x)
    case (Inl err)
    with False r nd show ?thesis by (simp add: evaluate_and_nudge_def)
  next
    case (Inr t)
    show ?thesis
    proof (cases t)
      case None
      with False r nd Inr show ?thesis by (simp add: evaluate_and_nudge_def)
    next
      case (Some trig)
      obtain rule_name cat duration where "trig = (rule_name, cat, duration)"
        by (rule prod_cases3)
      with False r nd Inr Some show ?thesis
        by (simp add: evaluate_and_nudge_def generate_nudge_def send_notification_def
              nudges_once_append flag_after_append)
    qed
  qed
qed

lemma tick_nudges:
  "nudges_once (nudged_for_session s) (fst (snd (tick e s))) \<and>
   flag_after (nudged_for_session s) (fst (snd (tick e s))) = nudged_for_session (fst (tick e s))"
proof (cases "activity e")
  case False
  then show ?thesis by (simp add: tick_idle)
next
  case True
  then obtain d where d: "observed e = Inr (Some d)" "truthy_app (Some d)"
    by (auto simp: activity_def truthy_app_def split: sum.splits option.splits)
  have cn: "neutral (snd (snd (categorize_app (category_reply e) (ai_agent s)
                                 (AppStr (fst (get_app_info d))))))"
    by (rule categorize_app_neutral)
  from d show ?thesis
  proof (cases rule: tick_cases [where s = s])
    case (Unclassified err evc)
    with cn have "neutral evc" by simp
    from neutral_D [OF this] Unclassified(2) show ?thesis by simp
  next
    case (Unsaved c a' evc x)
    with cn have "neutral evc" by simp
    then have "neutral (evc @ [PrintSessionEnded (the (current_session_app_name s))
                            (current_session_category s)])"
      by (simp add: neutral_append neutral_simps)
    from neutral_D [OF this] Unsaved(4) show ?thesis by simp
  next
    case (Boundary c a' evc s2 evb)
    with cn have "neutral evc" by simp
    note n = neutral_D [OF this]
    from switch_session_nudges [of "s \<lparr> ai_agent := a' \<rparr>" e d c "snd (get_app_info d)"]
      Boundary(3)
    have b: "nudges_once (nudged_for_session s) evb"
      "flag_after (nudged_for_session s) evb = nudged_for_session s2"
      by simp_all
    from evaluate_and_nudge_nudges [of s2 e] n b show ?thesis
      unfolding Boundary(4) by (simp add: nudges_once_append flag_after_append)
  next
    case (Same c a' evc)
    with cn have "neutral evc" by simp
    note n = neutral_D [OF this]
    from evaluate_and_nudge_nudges [of "s \<lparr> ai_agent := a' \<rparr>" e] n show ?thesis
      unfolding Same(3) by (simp add: nudges_once_append flag_after_append)
  qed
qed

lemma on_keyboard_interrupt_nudges:
  "neutral (snd (snd (on_keyboard_interrupt e s)))"
  "nudged_for_session (fst (snd (on_keyboard_interrupt e s))) = nudged_for_session s"
  by (simp_all add: on_keyboard_interrupt_def neutral_simps split: option.splits sum.splits)

lemma iteration_nudges:
  "nudges_once (nudged_for_session s) (snd (iteration e s)) \<and>
   flag_after (nudged_for_session s) (snd (iteration e s)) =
     nudged_for_session (state_of (fst (iteration e s)))"
proof -
  obtain s' ev err where t: "tick e s = (s', ev, err)" by (rule prod_cases3)
  with tick_nudges [of s e]
  have n: "nudges_once (nudged_for_session s) ev"
    and f: "flag_after (nudged_for_session s) ev = nudged_for_session s'"
    by simp_all
  show ?thesis
  proof (cases err)
    case None
    obtain st s'' ev' where k: "on_keyboard_interrupt e s' = (st, s'', ev')"
      by (rule prod_cases3)
    from on_keyboard_interrupt_nudges [of e s'] k
    have "neutral ev'" and "nudged_for_session s'' = nudged_for_session s'" by simp_all
    with neutral_D [of ev'] None t n f k show ?thesis
      by (simp add: iteration_def state_of_def nudges_once_append flag_after_append)
  next
    case (Some x)
    with t n f show ?thesis
      by (simp add: iteration_def state_of_def nudges_once_append flag_after_append)
  qed
qed

text \<open>
  Claim C5. Within any single open session at most one nudge is fired: in the actions of
  every run, from every state, a notification is sent and rules are evaluated only while
  the per-session flag is clear; the notification sets the flag, and only the start of a
  new session clears it. The flag the actions leave is the flag of the state reached.
\<close>

theorem one_nudge_per_session:
  "nudges_once (nudged_for_session s) (snd (run es s)) \<and>
   flag_after (nudged_for_session s) (snd (run es s)) =
     nudged_for_session (state_of (fst (run es s)))"
proof (induction es arbitrary: s)
  case Nil
  show ?case by (simp add: state_of_def)
next
  case (Cons e es)
  show ?case
  proof (cases "fst (iteration e s)")
    case (Running s1)
    from iteration_nudges [of s e] Running
    have 1: "nudges_once (nudged_for_session s) (snd (iteration e s))"
      and 2: "flag_after (nudged_for_session s) (snd (iteration e s)) = nudged_for_session s1"
      by (simp_all add: state_of_def)
    show ?thesis
      unfolding run_Cons_running [OF Running] using 1 2 Cons.IH [of s1]
      by (simp add: nudges_once_append flag_after_append)
  next
    case (Exited st s1)
    show ?thesis unfolding run_Cons_exited [OF Exited] by (rule iteration_nudges)
  qed
qed

theorem one_nudge_per_session_witness:
  "nudges_once False (snd (run [code_env, code_later_env, code_later_env] fresh_app))
   \<and> length (filter (\<lambda>ev. ev = Notify ''bilge'' ''Consider taking a break from your screen.'')
         (snd (run [code_env, code_later_env, code_later_env] fresh_app))) = 1
   \<and> nudged_for_session (state_of (fst (run [code_env, code_later_env, code_later_env] fresh_app)))"
proof -
  have f: "nudged_for_session fresh_app = False" by (simp add: fresh_app_eq(2))
  from one_nudge_per_session [of fresh_app "[code_env, code_later_env, code_later_env]"]
  show ?thesis
    unfolding f run_three by (simp add: state_of_def nudged_code_def)
qed

subsection \<open>The strings derived from a browser activity\<close>

lemma categorize_app_cache:
  assumes "category_cache a = JObj m"
  shows "\<exists>c. fst (categorize_app r a d) = Inr c \<and>
             category_cache (fst (snd (categorize_app r a d))) = JObj (m(cache_key d \<mapsto> c))"
proof (cases "m (cache_key d)")
  case None
  with assms show ?thesis by (simp add: categorize_app_miss Let_def)
next
  case (Some v)
  then have "m(cache_key d \<mapsto> v) = m" by (rule map_upd_triv)
  with assms Some show ?thesis by (simp add: categorize_app_hit)
qed

lemma categorize_app_query:
  "cache_contains (category_cache a) (cache_key d) = Inr False \<Longrightarrow>
   QueryCategory (categorize_prompt d) \<in> set (snd (snd (categorize_app r a d)))"
  by (simp add: categorize_app_def Let_def split: sum.splits)

lemma tick_categorized:
  assumes "observed e = Inr (Some d)" "truthy_app (Some d)"
  shows "ai_agent (fst (tick e s)) =
           fst (snd (categorize_app (category_reply e) (ai_agent s)
                        (AppStr (fst (get_app_info d)))))"
    and "set (snd (snd (categorize_app (category_reply e) (ai_agent s)
                        (AppStr (fst (get_app_info d)))))) \<subseteq> set (fst (snd (tick e s)))"
proof -
  from assms
  have "ai_agent (fst (tick e s)) =
           fst (snd (categorize_app (category_reply e) (ai_agent s)
                        (AppStr (fst (get_app_info d)))))
        \<and> set (snd (snd (categorize_app (category_reply e) (ai_agent s)
                        (AppStr (fst (get_app_info d)))))) \<subseteq> set (fst (snd (tick e s)))"
  proof (cases rule: tick_cases [where s = s])
    case (Unclassified err evc)
    then show ?thesis by simp
  next
    case (Unsaved c a' evc x)
    then show ?thesis by auto
  next
    case (Boundary c a' evc s2 evb)
    from switch_session_others(1) [of e "s \<lparr> ai_agent := a' \<rparr>" d c "snd (get_app_info d)"]
      Boundary(3)
    have "ai_agent s2 = a'" by simp
    with Boundary show ?thesis by (simp add: evaluate_and_nudge_session)
  next
    case (Same c a' evc)
    then show ?thesis by (simp add: evaluate_and_nudge_session)
  qed
  then show "ai_agent (fst (tick e s)) =
           fst (snd (categorize_app (category_reply e) (ai_agent s)
                        (AppStr (fst (get_app_info d)))))"
    and "set (snd (snd (categorize_app (category_reply e) (ai_agent s)
                        (AppStr (fst (get_app_info d)))))) \<subseteq> set (fst (snd (tick e s)))"
    by simp_all
qed

text \<open>
  Claim C7 as stated fails in its first part: the orchestrator hands
  \<^verbatim>\<open>categorize_app\<close> the classification string, not the descriptor, so the cache key is
  that string. After a GitHub tab is seen from a fresh start the cache has no entry under
  \<^verbatim>\<open>chrome|GitHub|https://github.com\<close>, the key \<^verbatim>\<open>categorize_app\<close> would derive from
  the descriptor itself; its one entry is under \<^verbatim>\<open>GitHub | https://github.com\<close>.
\<close>

theorem browser_cache_key_counterexample:
  "category_cache (ai_agent (fst (tick github_env fresh_app))) =
     JObj [''GitHub | https://github.com'' \<mapsto> JStr ''Browsing'']
   \<and> [''GitHub | https://github.com'' \<mapsto> JStr ''Browsing'']
        ''chrome|GitHub|https://github.com'' = None
   \<and> cache_key (AppDict \<lparr> window_name = ''Google Chrome'', active_tab_title = ''GitHub'',
                      active_tab_url = Some ''https://github.com'' \<rparr>)
     = ''chrome|GitHub|https://github.com''"
  by (simp add: tick_github cache_key_def py_str_def)

text \<open>
  Claim C7, as the code has it. For every browser activity observed by the orchestrator,
  the classification subject is \<^verbatim>\<open>{tab_title} | {tab_url}\<close>, the log label is
  \<^verbatim>\<open>{window_name} | {tab_title}\<close>, and the cache key used for classification is the
  classification subject itself: the classifier is asked about it when it is absent from
  the cache, and when the cache is a dictionary the classification is stored under it.
  When moreover the log is a list, the session carries the label and the category after
  the pass.
\<close>

theorem browser_activity_strings:
  assumes init: "BilgeApp_init lf cf kf t0 = Inr s0"
    and reach: "fst (run es s0) = Running s"
    and obs: "observed e = Inr (Some (AppDict b))"
  shows
    "let subject = active_tab_title b @ '' | '' @ py_str (active_tab_url b);
         label = window_name b @ '' | '' @ active_tab_title b;
         r = fst (categorize_app (category_reply e) (ai_agent s) (AppStr subject));
         s' = fst (tick e s)
     in get_app_info (AppDict b) = (subject, label)
        \<and> cache_key (AppStr subject) = subject
        \<and> (cache_contains (category_cache (ai_agent s)) subject = Inr False \<longrightarrow>
             QueryCategory (categorize_prompt (AppStr subject)) \<in> set (fst (snd (tick e s))))
        \<and> (\<forall>m. category_cache (ai_agent s) = JObj m \<longrightarrow>
             (\<exists>c. r = Inr c
                \<and> category_cache (ai_agent s') = JObj (m(subject \<mapsto> c))
                \<and> ((\<exists>items. data (data_manager s) = JArr items) \<longrightarrow>
                     current_session_app_name s' = Some label
                     \<and> current_session_category s' = c)))"
proof -
  let ?d = "AppDict b"
  let ?subject = "active_tab_title b @ '' | '' @ py_str (active_tab_url b)"
  let ?label = "window_name b @ '' | '' @ active_tab_title b"
  let ?r = "categorize_app (category_reply e) (ai_agent s) (AppStr ?subject)"
  have truthy: "truthy_app (Some ?d)" by (simp add: truthy_app_def)
  have info: "get_app_info ?d = (?subject, ?label)" by (simp add: get_app_info_def)
  have fs: "fst (get_app_info ?d) = ?subject" "snd (get_app_info ?d) = ?label"
    by (simp_all add: info)
  have key: "cache_key (AppStr ?subject) = ?subject" by (simp add: cache_key_def)
  have inv: "session_inv s" using init_inv [OF init] reach by (rule run_inv)
  note tc = tick_categorized [OF obs truthy, of s, unfolded fs]
  have query: "cache_contains (category_cache (ai_agent s)) ?subject = Inr False \<longrightarrow>
             QueryCategory (categorize_prompt (AppStr ?subject)) \<in> set (fst (snd (tick e s)))"
  proof
    assume "cache_contains (category_cache (ai_agent s)) ?subject = Inr False"
    then have "cache_contains (category_cache (ai_agent s)) (cache_key (AppStr ?subject)) =
                 Inr False"
      unfolding key .
    then have "QueryCategory (categorize_prompt (AppStr ?subject)) \<in> set (snd (snd ?r))"
      by (rule categorize_app_query)
    with tc(2) show "QueryCategory (categorize_prompt (AppStr ?subject))
                       \<in> set (fst (snd (tick e s)))"
      by blast
  qed
  have dict: "\<forall>m. category_cache (ai_agent s) = JObj m \<longrightarrow>
             (\<exists>c. fst ?r = Inr c
                \<and> category_cache (ai_agent (fst (tick e s))) = JObj (m(?subject \<mapsto> c))
                \<and> ((\<exists>items. data (data_manager s) = JArr items) \<longrightarrow>
                     current_session_app_name (fst (tick e s)) = Some ?label
                     \<and> current_session_category (fst (tick e s)) = c))"
  proof (intro allI impI)
    fix m
    assume m: "category_cache (ai_agent s) = JObj m"
    from categorize_app_cache [OF m, of "category_reply e" "AppStr ?subject"]
    obtain c where c: "fst ?r = Inr c"
      and cache: "category_cache (fst (snd ?r)) = JObj (m(?subject \<mapsto> c))"
      unfolding key by blast
    have sess: "current_session_app_name (fst (tick e s)) = Some ?label
                \<and> current_session_category (fst (tick e s)) = c"
      if items: "\<exists>items. data (data_manager s) = JArr items"
    proof -
      from obs truthy show ?thesis
      proof (cases rule: tick_cases [where s = s])
        case (Unclassified err evc)
        with c show ?thesis by (simp add: fs)
      next
        case (Unsaved c' a' evc x)
        from items obtain its where "data (data_manager (s \<lparr> ai_agent := a' \<rparr>)) = JArr its"
          by auto
        from switch_session_result [of "s \<lparr> ai_agent := a' \<rparr>" e ?d c' "snd (get_app_info ?d)"]
          inv_name_cases [OF inv] this Unsaved(3)
        show ?thesis by (auto split: option.splits)
      next
        case (Boundary c' a' evc s2 evb)
        with c have cc: "c' = c" by (simp add: fs)
        from switch_session_ok_fields [of e "s \<lparr> ai_agent := a' \<rparr>" ?d c' "snd (get_app_info ?d)"]
          Boundary(3)
        have "current_session_app_name s2 = Some ?label" "current_session_category s2 = c'"
          by (simp_all add: fs)
        with Boundary(4) cc show ?thesis by (simp add: evaluate_and_nudge_session)
      next
        case (Same c' a' evc)
        with c have cc: "c' = c" by (simp add: fs)
        from Same(2) have "last_app_data s = Some ?d" and "current_session_category s = c'"
          by (simp_all add: session_boundary_def)
        moreover from inv \<open>last_app_data s = Some ?d\<close>
        have "current_session_app_name s = Some ?label"
          by (simp add: session_inv_def info)
        ultimately show ?thesis using Same(3) cc by (simp add: evaluate_and_nudge_session)
      qed
    qed
    from c cache sess tc(1)
    show "\<exists>c. fst ?r = Inr c
                \<and> category_cache (ai_agent (fst (tick e s))) = JObj (m(?subject \<mapsto> c))
                \<and> ((\<exists>items. data (data_manager s) = JArr items) \<longrightarrow>
                     current_session_app_name (fst (tick e s)) = Some ?label
                     \<and> current_session_category (fst (tick e s)) = c)"
      by auto
  qed
  show ?thesis
    unfolding Let_def using info key query dict by (intro conjI)
qed

theorem browser_activity_strings_witness:
  "get_app_info (AppDict \<lparr> window_name = ''Google Chrome'', active_tab_title = ''GitHub'',
                      active_tab_url = Some ''https://github.com'' \<rparr>)
     = (''GitHub | https://github.com'', ''Google Chrome | GitHub'')
   \<and> category_cache (ai_agent (fst (tick github_env fresh_app))) =
       JObj [''GitHub | https://github.com'' \<mapsto> JStr ''Browsing'']
   \<and> QueryCategory (categorize_prompt (AppStr ''GitHub | https://github.com''))
       \<in> set (fst (snd (tick github_env fresh_app)))
   \<and> current_session_app_name (fst (tick github_env fresh_app)) = Some ''Google Chrome | GitHub''
   \<and> current_session_category (fst (tick github_env fresh_app)) = JStr ''Browsing''"
proof -
  have r0: "fst (run [] fresh_app) = Running fresh_app" by simp
  have o: "observed github_env = Inr (Some (AppDict
             \<lparr> window_name = ''Google Chrome'', active_tab_title = ''GitHub'',
               active_tab_url = Some ''https://github.com'' \<rparr>))"
    by (simp add: github_env_def quiet_env_def)
  have c: "category_cache (ai_agent fresh_app) = JObj Map.empty"
    "data (data_manager fresh_app) = JArr []"
    by (simp_all add: fresh_app_eq(2))
  have k: "cache_contains (JObj Map.empty) ''GitHub | https://github.com'' = Inr False"
    by (simp add: cache_contains_def)
  have r: "fst (categorize_app (category_reply github_env) (ai_agent fresh_app)
                  (AppStr ''GitHub | https://github.com'')) = Inr (JStr ''Browsing'')"
    by (simp add: fresh_app_eq(2) github_env_def quiet_env_def tick_eval)
  from browser_activity_strings [OF fresh_app_eq(1) r0 o] c k r show ?thesis
    by (simp add: Let_def py_str_def)
qed

subsection \<open>Interrupts\<close>

text \<open>
  An interrupt that arrives during the sleep of the loop body is handled: the loop ends,
  and the open session, if any, has been saved as at a boundary when the log is a list.
\<close>

lemma interrupt_during_sleep:
  assumes "snd (snd (tick e s)) = None" and "sigint e"
  shows "fst (iteration e s) =
           Exited (fst (on_keyboard_interrupt e (fst (tick e s))))
             (fst (snd (on_keyboard_interrupt e (fst (tick e s)))))"
  using assms by (cases "tick e s") (simp add: iteration_def split: prod.splits)

lemma on_keyboard_interrupt_saves:
  assumes "session_inv s" and "data (data_manager s) = JArr items"
  shows "fst (on_keyboard_interrupt e s) = ExitSuccess"
    and "data (data_manager (fst (snd (on_keyboard_interrupt e s)))) =
           (case current_session_app_name s of
              None \<Rightarrow> JArr items
            | Some name \<Rightarrow>
                JArr (items @ [session_entry (round_double e) name (current_session_category s)
                                 (current_session_start_time s) (now_exit e)]))"
  using inv_name_cases [OF assms(1)] assms(2)
  by (auto simp: on_keyboard_interrupt_def save_session_list)

text \<open>
  Claim C9 says that on an interrupt an open session is closed and appended to the session
  log before the loop exits, and that the process exits with success. The code misses the
  interrupt that arrives during the five-second sleep of the error handler. In this run
  Code is seen and a session is opened; in the next pass the rule file holds \<^verbatim>\<open>{}\<close>, the
  \<^verbatim>\<open>KeyError\<close> sends the loop to \<^verbatim>\<open>except Exception\<close>, and Ctrl-C arrives during its
  sleep: the interrupt leaves \<^verbatim>\<open>run\<close> uncaught, and the session for Code, still open, is
  in neither the log nor the file.
\<close>

theorem interrupt_during_backoff_loses_session:
  "run [code_env, broken_config_env] fresh_app =
     (Exited UncaughtKeyboardInterrupt
        (in_code \<lparr> rules_engine :=
                    \<lparr> rules = DEFAULT_RULES, last_nudged_time = Map.empty,
                      last_modified_time = 1 \<rparr> \<rparr>),
      [PrintCategorizing ''Code'', QueryCategory (categorize_prompt (AppStr ''Code'')),
       WriteCache, PrintSessionStarted ''Code'' (JStr ''Work''), EvaluateRules,
       PrintRulesNotFound,
       EvaluateRules, PrintRulesModified, PrintError KeyError])
   \<and> current_session_app_name in_code = Some ''Code''
   \<and> data (data_manager in_code) = JArr []
   \<and> log_store (data_manager in_code) = LogMissing"
proof -
  have "run [code_env, broken_config_env] fresh_app =
     (Exited UncaughtKeyboardInterrupt
        (in_code \<lparr> rules_engine :=
                    \<lparr> rules = DEFAULT_RULES, last_nudged_time = Map.empty,
                      last_modified_time = 1 \<rparr> \<rparr>),
      [PrintCategorizing ''Code'', QueryCategory (categorize_prompt (AppStr ''Code'')),
       WriteCache, PrintSessionStarted ''Code'' (JStr ''Work''), EvaluateRules,
       PrintRulesNotFound,
       EvaluateRules, PrintRulesModified, PrintError KeyError])"
    by (simp add: iteration_def tick_code tick_broken_config no_sigint)
  then show ?thesis by (simp add: in_code_def)
qed

end
